theory Spec2Isabelle
  imports Main "HOL-Library.Multiset"
begin

section \<open>Strings and the pattern of \<open>check_syntax\<close>\<close>

text \<open>
  The repository holds five variants of one script (\<open>eemail.py\<close>, \<open>emailv8.py\<close>,
  \<open>emailv12.py\<close>, \<open>emailv13.py\<close> and the unnamed part, whose header calls it
  \<open>eeemail 2.py\<close>). Definitions shared by all variants keep the source's name; a
  definition that differs between variants carries the variant as a prefix
  (\<open>eemail_\<close>, \<open>v8_\<close>, \<open>v12_\<close>, \<open>v13_\<close>, \<open>p0_\<close>).

  A Python \<open>str\<close> is modelled as a \<open>string\<close>; a \<open>char\<close> stands for a code point
  below 256. The pattern only accepts ASCII characters.
\<close>

subsection \<open>Character classes and regular expressions\<close>

datatype citem = Lit char | Range char char

fun in_item :: "char \<Rightarrow> citem \<Rightarrow> bool" where
  "in_item c (Lit d) = (c = d)"
| "in_item c (Range lo hi) =
     ((of_char lo :: nat) \<le> of_char c \<and> (of_char c :: nat) \<le> of_char hi)"

definition in_class :: "citem list \<Rightarrow> char \<Rightarrow> bool" where
  "in_class items c = list_ex (in_item c) items"

datatype rexp =
    Zero
  | One
  | Atom "citem list"
  | Alt rexp rexp
  | Seq rexp rexp
  | Star rexp

definition Plus :: "rexp \<Rightarrow> rexp" where
  "Plus r = Seq r (Star r)"

text \<open>Matching by derivatives: the residual pattern after reading one character.\<close>

primrec nullable :: "rexp \<Rightarrow> bool" where
  "nullable Zero = False"
| "nullable One = True"
| "nullable (Atom cs) = False"
| "nullable (Alt r s) = (nullable r \<or> nullable s)"
| "nullable (Seq r s) = (nullable r \<and> nullable s)"
| "nullable (Star r) = True"

primrec deriv :: "char \<Rightarrow> rexp \<Rightarrow> rexp" where
  "deriv c Zero = Zero"
| "deriv c One = Zero"
| "deriv c (Atom cs) = (if in_class cs c then One else Zero)"
| "deriv c (Alt r s) = Alt (deriv c r) (deriv c s)"
| "deriv c (Seq r s) =
     (if nullable r then Alt (Seq (deriv c r) s) (deriv c s) else Seq (deriv c r) s)"
| "deriv c (Star r) = Seq (deriv c r) (Star r)"

primrec matches :: "rexp \<Rightarrow> string \<Rightarrow> bool" where
  "matches r [] = nullable r"
| "matches r (c # cs) = matches (deriv c r) cs"

text \<open>
  \<open>re.match(r"(^R$)", s) is not None\<close>: the match starts at the beginning of the
  string, and Python's \<open>$\<close> holds at the end of the string and also just before a
  newline that ends the string.
\<close>

definition newline :: char where
  "newline = CHR 0x0A"

definition re_match_anchored :: "rexp \<Rightarrow> string \<Rightarrow> bool" where
  "re_match_anchored r s =
     (matches r s \<or> (s \<noteq> [] \<and> last s = newline \<and> matches r (butlast s)))"

subsection \<open>The language of a pattern\<close>

inductive_set star :: "string set \<Rightarrow> string set" for L :: "string set" where
  star_nil: "[] \<in> star L"
| star_app: "u \<in> L \<Longrightarrow> v \<in> star L \<Longrightarrow> u @ v \<in> star L"

primrec lang :: "rexp \<Rightarrow> string set" where
  "lang Zero = {}"
| "lang One = {[]}"
| "lang (Atom cs) = {[c] | c. in_class cs c}"
| "lang (Alt r s) = lang r \<union> lang s"
| "lang (Seq r s) = {u @ v | u v. u \<in> lang r \<and> v \<in> lang s}"
| "lang (Star r) = star (lang r)"

subsection \<open>The pattern of the source\<close>

text \<open>
  \<^verbatim>\<open>EMAIL_REGEX = r"(^[a-zA-Z0-9_.+-]+@[a-zA-Z0-9-]+\.[a-zA-Z0-9-.]+$)"\<close>
  (the same pattern in all five variants). In the first class the final \<open>+-\<close> are the
  two literals; in the last class \<open>-.\<close> after the range \<open>0-9\<close> are two literals.
\<close>

definition local_class :: "citem list" where
  "local_class =
     [Range CHR ''a'' CHR ''z'', Range CHR ''A'' CHR ''Z'', Range CHR ''0'' CHR ''9'',
      Lit CHR ''_'', Lit CHR ''.'', Lit CHR ''+'', Lit CHR ''-'']"

definition label_class :: "citem list" where
  "label_class =
     [Range CHR ''a'' CHR ''z'', Range CHR ''A'' CHR ''Z'', Range CHR ''0'' CHR ''9'',
      Lit CHR ''-'']"

definition rest_class :: "citem list" where
  "rest_class =
     [Range CHR ''a'' CHR ''z'', Range CHR ''A'' CHR ''Z'', Range CHR ''0'' CHR ''9'',
      Lit CHR ''-'', Lit CHR ''.'']"

definition EMAIL_REGEX :: rexp where
  "EMAIL_REGEX =
     Seq (Plus (Atom local_class))
       (Seq (Atom [Lit CHR ''@''])
          (Seq (Plus (Atom label_class))
             (Seq (Atom [Lit CHR ''.''])
                (Plus (Atom rest_class)))))"

definition check_syntax :: "string \<Rightarrow> bool" where
  "check_syntax email = re_match_anchored EMAIL_REGEX email"

subsection \<open>\<open>str.split\<close>, indexing and \<open>str.lower\<close>\<close>

datatype dns_error = NoAnswer | NXDOMAIN | Timeout | OtherDnsError

datatype exn = DnsExn dns_error | SmtpExn | IndexError

text \<open>\<open>s.split(sep)\<close> for a one-character separator: every occurrence splits.\<close>

fun py_split :: "char \<Rightarrow> string \<Rightarrow> string list" where
  "py_split sep [] = [[]]"
| "py_split sep (c # cs) =
     (if c = sep then [] # py_split sep cs
      else (case py_split sep cs of
              [] \<Rightarrow> [[c]]
            | w # ws \<Rightarrow> (c # w) # ws))"

text \<open>\<open>xs[i]\<close> for a non-negative index: out of range raises \<open>IndexError\<close>.\<close>

definition py_index :: "'a list \<Rightarrow> nat \<Rightarrow> exn + 'a" where
  "py_index xs i = (if i < length xs then Inr (xs ! i) else Inl IndexError)"

text \<open>\<open>email.split('@')[1]\<close>, as \<open>validate_email\<close> and \<open>check_connection\<close> compute it.\<close>

definition domain_of :: "string \<Rightarrow> exn + string" where
  "domain_of email = py_index (py_split CHR ''@'' email) 1"

definition lower_char :: "char \<Rightarrow> char" where
  "lower_char c =
     (case map_of (zip ''ABCDEFGHIJKLMNOPQRSTUVWXYZ'' ''abcdefghijklmnopqrstuvwxyz'') c of
        None \<Rightarrow> c
      | Some l \<Rightarrow> l)"

definition lower :: "string \<Rightarrow> string" where
  "lower s = map lower_char s"

definition is_gmail_domain :: "string \<Rightarrow> bool" where
  "is_gmail_domain domain = (lower domain = ''gmail.com'')"

text \<open>
  The shape the specification gives for an accepted address: a non-empty local part of
  local characters, one \<open>@\<close>, and a domain of non-empty labels of label characters
  separated by dots.
\<close>

definition spec_address :: "string \<Rightarrow> bool" where
  "spec_address s =
     (case py_split CHR ''@'' s of
        [l, d] \<Rightarrow>
          l \<noteq> [] \<and> list_all (in_class local_class) l \<and>
          list_all (\<lambda>lab. lab \<noteq> [] \<and> list_all (in_class label_class) lab)
            (py_split CHR ''.'' d)
      | _ \<Rightarrow> False)"

section \<open>The network as seen by the scripts\<close>

text \<open>
  \<open>dns.resolver.resolve\<close>, \<open>smtplib.SMTP\<close> and \<open>time.sleep\<close> are library calls. Each
  call either returns or raises; what it does is decided by the outside world. The
  world is an oracle that answers a call given the history of the run so far, and every
  call is appended to that history with its answer, so that the history is also the
  record of what the script did on the network. \<open>print\<close> and \<open>logging\<close> calls are
  left out.
\<close>

record mx_record =
  preference :: nat
  exchange :: string

datatype smtp_cmd =
    Connect string
  | Helo
  | EhloOrHelo
  | Mail string
  | Rcpt string
  | Quit
  | Exit

datatype smtp_reply = SmtpRaise | SmtpReply int

datatype event =
    DnsEvent string "dns_error + mx_record list"
  | SmtpEvent smtp_cmd smtp_reply
  | SleepEvent nat

type_synonym trace = "event list"

record net =
  dns :: "trace \<Rightarrow> string \<Rightarrow> dns_error + mx_record list"
  smtp :: "trace \<Rightarrow> smtp_cmd \<Rightarrow> smtp_reply"

text \<open>A computation reads the trace, returns a value or raises, and extends the trace.\<close>

type_synonym 'a io = "trace \<Rightarrow> (exn + 'a) \<times> trace"

definition io_return :: "'a \<Rightarrow> 'a io" where
  "io_return x = (\<lambda>t. (Inr x, t))"

definition io_raise :: "exn \<Rightarrow> 'a io" where
  "io_raise e = (\<lambda>t. (Inl e, t))"

definition io_of :: "exn + 'a \<Rightarrow> 'a io" where
  "io_of r = (\<lambda>t. (r, t))"

definition io_bind :: "'a io \<Rightarrow> ('a \<Rightarrow> 'b io) \<Rightarrow> 'b io" where
  "io_bind m f = (\<lambda>t. case m t of (Inl e, t') \<Rightarrow> (Inl e, t') | (Inr x, t') \<Rightarrow> f x t')"

text \<open>\<open>try: m  except ... as e: h e\<close>; a handler that does not match re-raises.\<close>

definition io_try :: "'a io \<Rightarrow> (exn \<Rightarrow> 'a io) \<Rightarrow> 'a io" where
  "io_try m h = (\<lambda>t. case m t of (Inl e, t') \<Rightarrow> h e t' | (Inr x, t') \<Rightarrow> (Inr x, t'))"

text \<open>\<open>dns.resolver.resolve(domain, 'MX')\<close>: the answer's records, or an exception.\<close>

definition resolve :: "net \<Rightarrow> string \<Rightarrow> mx_record list io" where
  "resolve net domain =
     (\<lambda>t. let r = dns net t domain
          in (case r of Inl e \<Rightarrow> Inl (DnsExn e) | Inr rs \<Rightarrow> Inr rs, t @ [DnsEvent domain r]))"

text \<open>
  One call on an SMTP session. \<open>Connect host\<close> is the constructor \<open>smtplib.SMTP(host)\<close>,
  \<open>Helo\<close> is \<open>server.helo()\<close>, \<open>EhloOrHelo\<close> is \<open>server.ehlo_or_helo_if_needed()\<close>,
  \<open>Mail\<close>, \<open>Rcpt\<close> and \<open>Quit\<close> are \<open>server.mail\<close>, \<open>server.rcpt\<close> and \<open>server.quit\<close>,
  and \<open>Exit\<close> is the \<open>__exit__\<close> of the \<open>with\<close> statement, which sends QUIT and raises
  when the server answers it with a code other than 221. A call that returns yields the
  reply code (the message is not used by the scripts).
\<close>

definition smtp_call :: "net \<Rightarrow> smtp_cmd \<Rightarrow> int io" where
  "smtp_call net cmd =
     (\<lambda>t. let r = smtp net t cmd
          in (case r of SmtpRaise \<Rightarrow> Inl SmtpExn | SmtpReply code \<Rightarrow> Inr code,
              t @ [SmtpEvent cmd r]))"

definition sleep :: "nat \<Rightarrow> unit io" where
  "sleep secs = (\<lambda>t. (Inr (), t @ [SleepEvent secs]))"

text \<open>
  \<open>with smtplib.SMTP(host, timeout=10) as server: body\<close>: the session is opened, the body
  runs, and \<open>__exit__\<close> runs whether the body returned or raised; an exception of
  \<open>__exit__\<close> replaces the outcome of the body.
\<close>

definition with_smtp :: "net \<Rightarrow> string \<Rightarrow> 'a io \<Rightarrow> 'a io" where
  "with_smtp net host body =
     io_bind (smtp_call net (Connect host)) (\<lambda>_.
       (\<lambda>t. case body t of
              (r, t1) \<Rightarrow>
                (case smtp_call net Exit t1 of
                   (Inl e, t2) \<Rightarrow> (Inl e, t2)
                 | (Inr _, t2) \<Rightarrow> (r, t2))))"

text \<open>The outcome of a computation started on a trace, and the events it added.\<close>

definition outcome :: "'a io \<Rightarrow> trace \<Rightarrow> exn + 'a" where
  "outcome m t = fst (m t)"

definition new_events :: "'a io \<Rightarrow> trace \<Rightarrow> trace" where
  "new_events m t = drop (length t) (snd (m t))"

fun is_smtp_raise :: "event \<Rightarrow> bool" where
  "is_smtp_raise (SmtpEvent cmd SmtpRaise) = True"
| "is_smtp_raise _ = False"

fun is_connect :: "event \<Rightarrow> bool" where
  "is_connect (SmtpEvent (Connect host) r) = True"
| "is_connect _ = False"

fun is_resolve :: "event \<Rightarrow> bool" where
  "is_resolve (DnsEvent domain r) = True"
| "is_resolve _ = False"

fun is_sleep :: "event \<Rightarrow> bool" where
  "is_sleep (SleepEvent secs) = True"
| "is_sleep _ = False"

section \<open>eemail.py\<close>

definition eemail_check_mail_server :: "net \<Rightarrow> string \<Rightarrow> bool io" where
  "eemail_check_mail_server net domain =
     io_try
       (io_bind (resolve net domain) (\<lambda>mx_records.
        io_return (length mx_records > 0)))
       (\<lambda>e. if e = DnsExn NoAnswer \<or> e = DnsExn NXDOMAIN then io_return False
            else io_raise e)"

definition eemail_check_connection :: "net \<Rightarrow> string \<Rightarrow> bool io" where
  "eemail_check_connection net email =
     io_bind (io_of (domain_of email)) (\<lambda>domain.
       io_try
         (io_bind (resolve net domain) (\<lambda>mx_records.
          io_bind (io_of (py_index mx_records 0)) (\<lambda>mx.
          io_bind (smtp_call net (Connect (exchange mx))) (\<lambda>_.
          io_bind (smtp_call net Helo) (\<lambda>_.
          io_bind (smtp_call net Quit) (\<lambda>_.
          io_return True))))))
         (\<lambda>e. io_return False))"

definition eemail_check_catch_all :: "net \<Rightarrow> string \<Rightarrow> bool io" where
  "eemail_check_catch_all net domain =
     io_try
       (io_bind (resolve net domain) (\<lambda>mx_records.
        io_bind (io_of (py_index mx_records 0)) (\<lambda>mx.
        io_bind (smtp_call net (Connect (exchange mx))) (\<lambda>_.
        io_bind (smtp_call net Helo) (\<lambda>_.
        if is_gmail_domain domain then
          io_bind (smtp_call net (Mail ''test@gmail.com'')) (\<lambda>_.
          io_bind (smtp_call net (Rcpt ''fake-email@gmail.com'')) (\<lambda>code.
          io_bind (smtp_call net Quit) (\<lambda>_.
          io_return (code \<noteq> 550))))
        else
          io_bind (smtp_call net (Mail ''test@example.com'')) (\<lambda>_.
          io_bind (smtp_call net (Rcpt (''fake-email@'' @ domain))) (\<lambda>code.
          io_bind (smtp_call net Quit) (\<lambda>_.
          io_return (code = 250)))))))))
       (\<lambda>e. io_return False)"

definition eemail_validate_email :: "net \<Rightarrow> string \<Rightarrow> (bool \<times> string) io" where
  "eemail_validate_email net email =
     (if \<not> check_syntax email then io_return (False, ''Invalid syntax'')
      else
        io_bind (io_of (domain_of email)) (\<lambda>domain.
        io_bind (eemail_check_mail_server net domain) (\<lambda>has_mx.
        if \<not> has_mx then io_return (False, ''No MX records found'')
        else
          io_bind (eemail_check_connection net email) (\<lambda>connected.
          if \<not> connected then io_return (False, ''Cannot connect to mail server'')
          else
            io_bind (eemail_check_catch_all net domain) (\<lambda>catch_all.
            if catch_all then io_return (False, ''Domain has catch-all enabled'')
            else io_return (True, ''Email is valid''))))))"

section \<open>emailv8.py\<close>

definition v8_check_catch_all :: "net \<Rightarrow> string \<Rightarrow> bool io" where
  "v8_check_catch_all net domain =
     io_try
       (io_bind (resolve net domain) (\<lambda>mx_records.
        io_bind (io_of (py_index mx_records 0)) (\<lambda>mx.
        with_smtp net (exchange mx)
          (io_bind (smtp_call net EhloOrHelo) (\<lambda>_.
           if is_gmail_domain domain then
             io_bind (smtp_call net (Mail ''test@gmail.com'')) (\<lambda>_.
             io_bind (smtp_call net (Rcpt ''fake-email@gmail.com'')) (\<lambda>code.
             io_return (code \<noteq> 550)))
           else
             io_bind (smtp_call net (Mail ''test@example.com'')) (\<lambda>_.
             io_bind (smtp_call net (Rcpt (''fake-email@'' @ domain))) (\<lambda>code.
             io_return (code = 250))))))))
       (\<lambda>e. io_return False)"

section \<open>emailv12.py\<close>

definition v12_check_mail_server :: "net \<Rightarrow> string \<Rightarrow> bool io" where
  "v12_check_mail_server net domain =
     io_try
       (io_bind (resolve net domain) (\<lambda>mx_records.
        io_return (length mx_records > 0)))
       (\<lambda>e. if e = DnsExn NoAnswer \<or> e = DnsExn NXDOMAIN \<or> e = DnsExn Timeout
            then io_return False
            else io_return False)"

definition v12_check_connection :: "net \<Rightarrow> string \<Rightarrow> bool io" where
  "v12_check_connection net email =
     io_bind (io_of (domain_of email)) (\<lambda>domain.
       io_try
         (io_bind (resolve net domain) (\<lambda>mx_records.
          io_bind (io_of (py_index mx_records 0)) (\<lambda>mx.
          with_smtp net (exchange mx)
            (io_bind (smtp_call net EhloOrHelo) (\<lambda>_.
             io_bind (smtp_call net (Mail ''test@example.com'')) (\<lambda>_.
             io_bind (smtp_call net (Rcpt email)) (\<lambda>code.
             if code = 250 then io_return True else io_return False)))))))
         (\<lambda>e. io_return False))"

definition v12_check_catch_all :: "net \<Rightarrow> string \<Rightarrow> bool io" where
  "v12_check_catch_all net domain =
     io_try
       (io_bind (resolve net domain) (\<lambda>mx_records.
        io_bind (io_of (py_index mx_records 0)) (\<lambda>mx.
        with_smtp net (exchange mx)
          (io_bind (smtp_call net EhloOrHelo) (\<lambda>_.
           io_bind (smtp_call net (Mail ''test@example.com'')) (\<lambda>_.
           io_bind (smtp_call net (Rcpt (''nonexistent@'' @ domain))) (\<lambda>code.
           io_return (code = 250))))))))
       (\<lambda>e. io_return False)"

definition v12_validate_email :: "net \<Rightarrow> string \<Rightarrow> (string \<times> string) io" where
  "v12_validate_email net email =
     (if \<not> check_syntax email then io_return (email, ''Invalid syntax'')
      else
        io_bind (io_of (domain_of email)) (\<lambda>domain.
        io_bind (v12_check_mail_server net domain) (\<lambda>has_mx.
        if \<not> has_mx then io_return (email, ''No MX records found'')
        else
          io_bind (v12_check_catch_all net domain) (\<lambda>catch_all.
          if catch_all then io_return (email, ''Valid'')
          else
            io_bind (v12_check_connection net email) (\<lambda>connected.
            if \<not> connected then io_return (email, ''Cannot connect to mail server'')
            else io_return (email, ''Valid''))))))"




section \<open>emailv13.py\<close>

text \<open>
  The decorator \<open>retry_connection\<close>: \<open>for attempt in range(retries)\<close> with \<open>retries = 3\<close>.
  The wrapper returns \<open>None\<close> when the loop ends without a \<open>return\<close>; \<open>truthy\<close> is
  Python's truth value of what the wrapper returned.
\<close>

definition retries :: nat where
  "retries = 3"

fun retry_for :: "bool io \<Rightarrow> nat list \<Rightarrow> bool option io" where
  "retry_for func [] = io_return None"
| "retry_for func (attempt # rest) =
     io_bind func (\<lambda>result.
       if result \<or> attempt = retries - 1 then io_return (Some result)
       else io_bind (sleep (2 ^ attempt)) (\<lambda>_. retry_for func rest))"

definition retry_connection :: "bool io \<Rightarrow> bool option io" where
  "retry_connection func = retry_for func [0..<retries]"

fun truthy :: "bool option \<Rightarrow> bool" where
  "truthy None = False"
| "truthy (Some b) = b"

text \<open>
  \<open>@retry_connection\<close> above \<open>def check_mail_server\<close> binds the name to the wrapper
  around the function as written; the function as written is the \<open>_body\<close> here.
\<close>

definition v13_check_mail_server_body :: "net \<Rightarrow> string \<Rightarrow> bool io" where
  "v13_check_mail_server_body net domain =
     io_try
       (io_bind (resolve net domain) (\<lambda>mx_records.
        io_return (length mx_records > 0)))
       (\<lambda>e. io_return False)"

definition v13_check_mail_server :: "net \<Rightarrow> string \<Rightarrow> bool option io" where
  "v13_check_mail_server net domain =
     retry_connection (v13_check_mail_server_body net domain)"

definition v13_check_connection_body :: "net \<Rightarrow> string \<Rightarrow> bool io" where
  "v13_check_connection_body net email =
     io_bind (io_of (domain_of email)) (\<lambda>domain.
       io_try
         (io_bind (resolve net domain) (\<lambda>mx_records.
          io_bind (io_of (py_index mx_records 0)) (\<lambda>mx.
          with_smtp net (exchange mx)
            (io_bind (smtp_call net EhloOrHelo) (\<lambda>_.
             io_bind (smtp_call net (Mail ''your-email@example.com'')) (\<lambda>_.
             io_bind (smtp_call net (Rcpt email)) (\<lambda>code.
             if code = 250 \<or> code = 251 then io_return True else io_return False)))))))
         (\<lambda>e. io_return False))"

definition v13_check_connection :: "net \<Rightarrow> string \<Rightarrow> bool option io" where
  "v13_check_connection net email =
     retry_connection (v13_check_connection_body net email)"

definition v13_validate_email :: "net \<Rightarrow> string \<Rightarrow> (string \<times> string) io" where
  "v13_validate_email net email =
     (if \<not> check_syntax email then io_return (email, ''Invalid syntax'')
      else
        io_bind (io_of (domain_of email)) (\<lambda>domain.
        io_bind (v13_check_mail_server net domain) (\<lambda>has_mx.
        if \<not> truthy has_mx then io_return (email, ''No MX records found'')
        else
          io_bind (v13_check_connection net email) (\<lambda>connected.
          if \<not> truthy connected then io_return (email, ''Cannot connect to mail server'')
          else io_return (email, ''Valid'')))))"


section \<open>The unnamed part (\<open>eeemail 2.py\<close>)\<close>

definition max_retries :: nat where
  "max_retries = 3"

function p0_check_mail_server_loop :: "net \<Rightarrow> string \<Rightarrow> nat \<Rightarrow> bool io" where
  "p0_check_mail_server_loop net domain retry_count =
     (if retry_count < max_retries then
        io_try
          (io_bind (resolve net domain) (\<lambda>mx_records.
           io_return (length mx_records > 0)))
          (\<lambda>e. if e = DnsExn NoAnswer \<or> e = DnsExn NXDOMAIN then io_return False
               else if e = DnsExn Timeout
               then p0_check_mail_server_loop net domain (retry_count + 1)
               else io_raise e)
      else io_return False)"
  by pat_completeness auto
termination
  by (relation "measure (\<lambda>(net, domain, retry_count). max_retries - retry_count)") auto

declare p0_check_mail_server_loop.simps [simp del]

definition p0_check_mail_server :: "net \<Rightarrow> string \<Rightarrow> bool io" where
  "p0_check_mail_server net domain = p0_check_mail_server_loop net domain 0"

definition p0_check_connection :: "net \<Rightarrow> string \<Rightarrow> bool io" where
  "p0_check_connection net email =
     io_bind (io_of (domain_of email)) (\<lambda>domain.
       io_try
         (io_bind (resolve net domain) (\<lambda>mx_records.
          io_bind (io_of (py_index mx_records 0)) (\<lambda>mx.
          io_bind (smtp_call net (Connect (exchange mx))) (\<lambda>_.
          io_bind (smtp_call net Helo) (\<lambda>_.
          io_bind (smtp_call net Quit) (\<lambda>_.
          io_return True))))))
         (\<lambda>e. io_return False))"

function p0_check_catch_all_loop :: "net \<Rightarrow> string \<Rightarrow> nat \<Rightarrow> bool io" where
  "p0_check_catch_all_loop net domain retry_count =
     (if retry_count < max_retries then
        io_try
          (io_bind (resolve net domain) (\<lambda>mx_records.
           io_bind (io_of (py_index mx_records 0)) (\<lambda>mx.
           io_bind (smtp_call net (Connect (exchange mx))) (\<lambda>_.
           io_bind (smtp_call net Helo) (\<lambda>_.
           if is_gmail_domain domain then
             io_bind (smtp_call net (Mail ''test@gmail.com'')) (\<lambda>_.
             io_bind (smtp_call net (Rcpt ''fake-email@gmail.com'')) (\<lambda>code.
             io_bind (smtp_call net Quit) (\<lambda>_.
             io_return (code \<noteq> 550))))
           else
             io_bind (smtp_call net (Mail ''test@example.com'')) (\<lambda>_.
             io_bind (smtp_call net (Rcpt (''fake-email@'' @ domain))) (\<lambda>code.
             io_bind (smtp_call net Quit) (\<lambda>_.
             io_return (code = 250)))))))))
          (\<lambda>e. if e = DnsExn Timeout
               then p0_check_catch_all_loop net domain (retry_count + 1)
               else io_return False)
      else io_return False)"
  by pat_completeness auto
termination
  by (relation "measure (\<lambda>(net, domain, retry_count). max_retries - retry_count)") auto

declare p0_check_catch_all_loop.simps [simp del]

definition p0_check_catch_all :: "net \<Rightarrow> string \<Rightarrow> bool io" where
  "p0_check_catch_all net domain = p0_check_catch_all_loop net domain 0"

definition p0_validate_email :: "net \<Rightarrow> string \<Rightarrow> (bool \<times> string) io" where
  "p0_validate_email net email =
     (if \<not> check_syntax email then io_return (False, ''Invalid syntax'')
      else
        io_bind (io_of (domain_of email)) (\<lambda>domain.
        io_bind (p0_check_mail_server net domain) (\<lambda>has_mx.
        if \<not> has_mx then io_return (False, ''No MX records found'')
        else
          io_bind (p0_check_connection net email) (\<lambda>connected.
          if \<not> connected then io_return (False, ''Cannot connect to mail server'')
          else
            io_bind (p0_check_catch_all net domain) (\<lambda>catch_all.
            if catch_all then io_return (False, ''Domain has catch-all enabled'')
            else io_return (True, ''Email is valid''))))))"

section \<open>Reading a run\<close>

text \<open>
  \<open>wp m Q t\<close>: the postcondition \<open>Q\<close> holds of the outcome and the trace that \<open>m\<close>
  leaves when started on \<open>t\<close>.
\<close>

definition wp :: "'a io \<Rightarrow> (exn + 'a \<Rightarrow> trace \<Rightarrow> bool) \<Rightarrow> trace \<Rightarrow> bool" where
  "wp m Q t = Q (fst (m t)) (snd (m t))"

text \<open>An RCPT for the recipient \<open>rcpt\<close> that the server answered with a code satisfying \<open>P\<close>.\<close>

definition rcpt_replied :: "string \<Rightarrow> (int \<Rightarrow> bool) \<Rightarrow> event \<Rightarrow> bool" where
  "rcpt_replied rcpt P e =
     (case e of SmtpEvent (Rcpt r) (SmtpReply code) \<Rightarrow> r = rcpt \<and> P code | _ \<Rightarrow> False)"

text \<open>
  What a probe session says: the RCPT for \<open>rcpt\<close> was answered with a code satisfying
  \<open>P\<close>, and no SMTP call of the run raised.
\<close>

definition probe_accepts :: "string \<Rightarrow> (int \<Rightarrow> bool) \<Rightarrow> trace \<Rightarrow> bool" where
  "probe_accepts rcpt P evs =
     (list_ex (rcpt_replied rcpt P) evs \<and> \<not> list_ex is_smtp_raise evs)"

text \<open>An MX lookup that \<open>check_mail_server\<close> counts as a success: an answer with a record.\<close>

definition lookup_ok :: "dns_error + mx_record list \<Rightarrow> bool" where
  "lookup_ok r = (case r of Inl e \<Rightarrow> False | Inr rs \<Rightarrow> rs \<noteq> [])"

fun is_smtp :: "event \<Rightarrow> bool" where
  "is_smtp (SmtpEvent cmd r) = True"
| "is_smtp _ = False"

text \<open>
  The shape of a run of the unnamed part's \<open>check_mail_server\<close> that may make up to \<open>n\<close>
  lookups: the events are lookups of the domain and nothing else, at least one when
  \<open>n\<close> is positive, every lookup but the last timed out, and the last lookup decides
  the outcome.
\<close>

definition p0_ms_post :: "string \<Rightarrow> nat \<Rightarrow> exn + bool \<Rightarrow> trace \<Rightarrow> bool" where
  "p0_ms_post domain n r evs =
     (\<exists>replies. evs = map (DnsEvent domain) replies \<and> length replies \<le> n \<and>
        (0 < n \<longrightarrow> replies \<noteq> []) \<and>
        list_all (\<lambda>rep. rep = Inl Timeout) (butlast replies) \<and>
        (replies = [] \<longrightarrow> r = Inr False) \<and>
        (replies \<noteq> [] \<longrightarrow>
           (case last replies of
              Inl Timeout \<Rightarrow> length replies = n \<and> r = Inr False
            | Inl NoAnswer \<Rightarrow> r = Inr False
            | Inl NXDOMAIN \<Rightarrow> r = Inr False
            | Inl OtherDnsError \<Rightarrow> r = Inl (DnsExn OtherDnsError)
            | Inr rs \<Rightarrow> r = Inr (rs \<noteq> []))))"

text \<open>
  What one SMTP session of a catch-all probe looks like: SMTP events only, at most one
  connection, a call that raised is the last event, and the outcome is what the probe
  says.
\<close>

definition session_post ::
    "string \<Rightarrow> (int \<Rightarrow> bool) \<Rightarrow> exn + bool \<Rightarrow> trace \<Rightarrow> bool" where
  "session_post rcpt P r session =
     (list_all is_smtp session \<and> length (filter is_connect session) \<le> 1 \<and>
      (list_ex is_smtp_raise session \<longrightarrow> is_smtp_raise (last session)) \<and>
      r = Inr (probe_accepts rcpt P session))"

text \<open>
  The shape of a run of the unnamed part's \<open>check_catch_all\<close> that may make up to \<open>n\<close>
  lookups: lookups of the domain, every one but the last timed out, followed by at most
  one SMTP session.
\<close>

definition p0_ca_post ::
    "string \<Rightarrow> string \<Rightarrow> (int \<Rightarrow> bool) \<Rightarrow> nat \<Rightarrow> exn + bool \<Rightarrow> trace \<Rightarrow> bool" where
  "p0_ca_post domain rcpt P n r evs =
     (\<exists>replies session.
        evs = map (DnsEvent domain) replies @ session \<and> length replies \<le> n \<and>
        list_all (\<lambda>rep. rep = Inl Timeout) (butlast replies) \<and>
        session_post rcpt P r session)"


text \<open>
  The replies of successive lookups of a domain with nothing in between: each reply is
  what the world answers on the trace the earlier lookups left.
\<close>

fun replies_from :: "net \<Rightarrow> string \<Rightarrow> trace \<Rightarrow> (dns_error + mx_record list) list \<Rightarrow> bool" where
  "replies_from net domain t [] = True"
| "replies_from net domain t (rep # reps) =
     (rep = dns net t domain \<and> replies_from net domain (t @ [DnsEvent domain rep]) reps)"

section \<open>Worlds used to run the scripts on concrete inputs\<close>

definition mx_of :: "nat \<Rightarrow> string \<Rightarrow> mx_record" where
  "mx_of p h = \<lparr>preference = p, exchange = h\<rparr>"

text \<open>A server that answers every call: 220 on connect, 221 on QUIT, 250 otherwise.\<close>

definition smtp_ok :: "smtp_cmd \<Rightarrow> smtp_reply" where
  "smtp_ok c =
     (case c of
        Connect h \<Rightarrow> SmtpReply 220
      | Quit \<Rightarrow> SmtpReply 221
      | Exit \<Rightarrow> SmtpReply 221
      | _ \<Rightarrow> SmtpReply 250)"

text \<open>A world where every lookup finds one exchanger, which accepts every recipient.\<close>

definition net_accept_all :: net where
  "net_accept_all =
     \<lparr>dns = (\<lambda>t d. Inr [mx_of 10 ''mx.example.com'']),
      smtp = (\<lambda>t c. smtp_ok c)\<rparr>"

text \<open>A world where the domain does not exist.\<close>

definition net_nxdomain :: net where
  "net_nxdomain = \<lparr>dns = (\<lambda>t d. Inl NXDOMAIN), smtp = (\<lambda>t c. SmtpRaise)\<rparr>"

text \<open>A world where every lookup times out.\<close>

definition net_timeout :: net where
  "net_timeout = \<lparr>dns = (\<lambda>t d. Inl Timeout), smtp = (\<lambda>t c. SmtpRaise)\<rparr>"

text \<open>A world where lookups succeed and no mail exchanger accepts a connection.\<close>

definition net_refused :: net where
  "net_refused =
     \<lparr>dns = (\<lambda>t d. Inr [mx_of 10 ''mx.example.com'']),
      smtp = (\<lambda>t c. SmtpRaise)\<rparr>"

text \<open>A world whose MX answer lists the less preferred exchanger first.\<close>

definition net_unsorted :: net where
  "net_unsorted =
     \<lparr>dns = (\<lambda>t d. Inr [mx_of 20 ''backup.example.com'', mx_of 10 ''primary.example.com'']),
      smtp = (\<lambda>t c. smtp_ok c)\<rparr>"

text \<open>A world where the server rejects every recipient with 550.\<close>

definition net_reject_rcpt :: net where
  "net_reject_rcpt =
     \<lparr>dns = (\<lambda>t d. Inr [mx_of 10 ''mx.example.com'']),
      smtp = (\<lambda>t c. case c of Rcpt r \<Rightarrow> SmtpReply 550 | _ \<Rightarrow> smtp_ok c)\<rparr>"

text \<open>A world where the server accepts the real recipient only.\<close>

definition net_accept_user :: net where
  "net_accept_user =
     \<lparr>dns = (\<lambda>t d. Inr [mx_of 10 ''mx.example.com'']),
      smtp = (\<lambda>t c. case c of
                       Rcpt r \<Rightarrow> if r = ''user@example.com'' then SmtpReply 250
                                 else SmtpReply 550
                     | _ \<Rightarrow> smtp_ok c)\<rparr>"

text \<open>A world where the first lookup times out and the domain then does not exist.\<close>

definition net_timeout_then_nxdomain :: net where
  "net_timeout_then_nxdomain =
     \<lparr>dns = (\<lambda>t d. if t = [] then Inl Timeout else Inl NXDOMAIN),
      smtp = (\<lambda>t c. SmtpRaise)\<rparr>"

text \<open>
  A world where the exchanger refuses every call until the script has slept once.
\<close>

definition net_recovering :: net where
  "net_recovering =
     \<lparr>dns = (\<lambda>t d. Inr [mx_of 10 ''mx.example.com'']),
      smtp = (\<lambda>t c. if list_ex is_sleep t then smtp_ok c else SmtpRaise)\<rparr>"

section \<open>Properties of the syntax check\<close>

subsection \<open>The derivative matcher decides the language of the pattern\<close>

lemma nullable_iff: "nullable r \<longleftrightarrow> [] \<in> lang r"
  by (induction r) (auto intro: star.star_nil)

lemma star_cons_split:
  "x \<in> star L \<Longrightarrow> x = c # w \<Longrightarrow> \<exists>u v. w = u @ v \<and> c # u \<in> L \<and> v \<in> star L"
proof (induction arbitrary: w rule: star.induct)
  case star_nil
  then show ?case by simp
next
  case (star_app u v)
  show ?case
  proof (cases u)
    case Nil
    with star_app show ?thesis by simp
  next
    case (Cons a u')
    with star_app.hyps star_app.prems show ?thesis by auto
  qed
qed

lemma star_cons_iff:
  "c # w \<in> star L \<longleftrightarrow> (\<exists>u v. w = u @ v \<and> c # u \<in> L \<and> v \<in> star L)"
proof
  assume "c # w \<in> star L"
  then show "\<exists>u v. w = u @ v \<and> c # u \<in> L \<and> v \<in> star L"
    by (rule star_cons_split) simp
next
  assume "\<exists>u v. w = u @ v \<and> c # u \<in> L \<and> v \<in> star L"
  then obtain u v where "w = u @ v" "c # u \<in> L" "v \<in> star L" by blast
  then have "(c # u) @ v \<in> star L" by (intro star.star_app)
  with \<open>w = u @ v\<close> show "c # w \<in> star L" by simp
qed

lemma lang_deriv: "lang (deriv c r) = {w. c # w \<in> lang r}"
proof (induction r)
  case (Seq r s)
  then show ?case
    by (auto simp: nullable_iff Cons_eq_append_conv)
next
  case (Star r)
  then show ?case
    by (auto simp: star_cons_iff)
qed auto

lemma matches_iff: "matches r w \<longleftrightarrow> w \<in> lang r"
  by (induction w arbitrary: r) (simp_all add: nullable_iff lang_deriv)

lemma star_atoms: "star {[c] | c. P c} = {w. list_all P w}"
proof (rule set_eqI, rule iffI)
  fix w assume "w \<in> star {[c] | c. P c}"
  then show "w \<in> {w. list_all P w}"
    by (induction rule: star.induct) auto
next
  fix w assume "w \<in> {w. list_all P w}"
  then have "list_all P w" by simp
  then show "w \<in> star {[c] | c. P c}"
  proof (induction w)
    case Nil
    then show ?case by (simp add: star.star_nil)
  next
    case (Cons a w)
    then have "[a] \<in> {[c] | c. P c}" "w \<in> star {[c] | c. P c}" by auto
    then have "[a] @ w \<in> star {[c] | c. P c}" by (rule star.star_app)
    then show ?case by simp
  qed
qed

lemma lang_Plus_Atom:
  "lang (Plus (Atom cs)) = {w. w \<noteq> [] \<and> list_all (in_class cs) w}"
proof (rule set_eqI, rule iffI)
  fix w assume "w \<in> lang (Plus (Atom cs))"
  then show "w \<in> {w. w \<noteq> [] \<and> list_all (in_class cs) w}"
    by (auto simp: Plus_def star_atoms)
next
  fix w assume "w \<in> {w. w \<noteq> [] \<and> list_all (in_class cs) w}"
  then obtain c v where w: "w = c # v" and c: "in_class cs c" and v: "list_all (in_class cs) v"
    by (cases w) auto
  have "[c] \<in> lang (Atom cs)" using c by simp
  moreover have "v \<in> lang (Star (Atom cs))" using v by (simp add: star_atoms)
  ultimately have "[c] @ v \<in> lang (Plus (Atom cs))"
    unfolding Plus_def lang.simps(5) by blast
  then show "w \<in> lang (Plus (Atom cs))" using w by simp
qed

lemma lang_Atom_Lit: "lang (Atom [Lit d]) = {[d]}"
  by (auto simp: in_class_def)

lemma lang_EMAIL_REGEX:
  "w \<in> lang EMAIL_REGEX \<longleftrightarrow>
     (\<exists>l d1 d2. w = l @ ''@'' @ d1 @ ''.'' @ d2 \<and>
        l \<noteq> [] \<and> list_all (in_class local_class) l \<and>
        d1 \<noteq> [] \<and> list_all (in_class label_class) d1 \<and>
        d2 \<noteq> [] \<and> list_all (in_class rest_class) d2)"
  unfolding EMAIL_REGEX_def lang.simps(5) lang_Plus_Atom lang_Atom_Lit
  by (simp, blast)

subsection \<open>What \<open>check_syntax\<close> accepts\<close>

lemma check_syntax_iff:
  "check_syntax s \<longleftrightarrow>
     (\<exists>l d1 d2.
        (s = l @ ''@'' @ d1 @ ''.'' @ d2 \<or> s = l @ ''@'' @ d1 @ ''.'' @ d2 @ [newline]) \<and>
        l \<noteq> [] \<and> list_all (in_class local_class) l \<and>
        d1 \<noteq> [] \<and> list_all (in_class label_class) d1 \<and>
        d2 \<noteq> [] \<and> list_all (in_class rest_class) d2)"
  (is "?L \<longleftrightarrow> (\<exists>l d1 d2. ?P l d1 d2)")
proof
  assume ?L
  then consider "s \<in> lang EMAIL_REGEX"
    | "s \<noteq> []" "last s = newline" "butlast s \<in> lang EMAIL_REGEX"
    by (auto simp: check_syntax_def re_match_anchored_def matches_iff)
  then show "\<exists>l d1 d2. ?P l d1 d2"
  proof cases
    case 1
    then show ?thesis unfolding lang_EMAIL_REGEX by blast
  next
    case 2
    from 2(3) obtain l d1 d2 where b: "butlast s = l @ ''@'' @ d1 @ ''.'' @ d2"
      and r: "l \<noteq> []" "list_all (in_class local_class) l"
        "d1 \<noteq> []" "list_all (in_class label_class) d1"
        "d2 \<noteq> []" "list_all (in_class rest_class) d2"
      unfolding lang_EMAIL_REGEX by blast
    have "s = butlast s @ [last s]" using 2(1) by simp
    then have "s = l @ ''@'' @ d1 @ ''.'' @ d2 @ [newline]"
      using b 2(2) by simp
    with r show ?thesis by blast
  qed
next
  assume "\<exists>l d1 d2. ?P l d1 d2"
  then obtain l d1 d2 where p: "?P l d1 d2" by blast
  then have m: "l @ ''@'' @ d1 @ ''.'' @ d2 \<in> lang EMAIL_REGEX"
    unfolding lang_EMAIL_REGEX by blast
  from p consider "s = l @ ''@'' @ d1 @ ''.'' @ d2" | "s = l @ ''@'' @ d1 @ ''.'' @ d2 @ [newline]"
    by blast
  then show ?L
  proof cases
    case 1
    with m show ?thesis by (simp add: check_syntax_def re_match_anchored_def matches_iff)
  next
    case 2
    then have "s = (l @ ''@'' @ d1 @ ''.'' @ d2) @ [newline]" by simp
    then have "s \<noteq> []" "last s = newline" "butlast s = l @ ''@'' @ d1 @ ''.'' @ d2"
      by (simp_all only: snoc_eq_iff_butlast last_snoc butlast_snoc) auto
    with m show ?thesis by (simp add: check_syntax_def re_match_anchored_def matches_iff)
  qed
qed

lemma local_class_not_at: "in_class local_class c \<Longrightarrow> c \<noteq> CHR ''@''"
  by (auto simp: in_class_def local_class_def)

lemma label_class_not_at: "in_class label_class c \<Longrightarrow> c \<noteq> CHR ''@''"
  by (auto simp: in_class_def label_class_def)

lemma rest_class_not_at: "in_class rest_class c \<Longrightarrow> c \<noteq> CHR ''@''"
  by (auto simp: in_class_def rest_class_def)

lemma list_all_not_at:
  "list_all P w \<Longrightarrow> (\<And>c. P c \<Longrightarrow> c \<noteq> CHR ''@'') \<Longrightarrow> CHR ''@'' \<notin> set w"
  by (auto simp: list_all_iff)

lemma py_split_notin: "sep \<notin> set w \<Longrightarrow> py_split sep w = [w]"
  by (induction w) auto

lemma py_split_app: "sep \<notin> set u \<Longrightarrow> py_split sep (u @ sep # v) = u # py_split sep v"
  by (induction u) auto

lemma count_list_notin: "x \<notin> set w \<Longrightarrow> count_list w x = 0"
  by (induction w) auto

lemma one_at_split:
  assumes "CHR ''@'' \<notin> set l" "CHR ''@'' \<notin> set d"
  shows "count_list (l @ ''@'' @ d) CHR ''@'' = 1 \<and>
         py_split CHR ''@'' (l @ ''@'' @ d) = [l, d] \<and>
         domain_of (l @ ''@'' @ d) = Inr d"
  using assms
  by (simp add: count_list_notin py_split_app py_split_notin domain_of_def py_index_def)

lemma check_syntax_decomp:
  assumes "check_syntax email"
  shows "\<exists>l d. email = l @ ''@'' @ d \<and> CHR ''@'' \<notin> set l \<and> CHR ''@'' \<notin> set d \<and> d \<noteq> []"
proof -
  from assms obtain l d1 d2 where
    s: "email = l @ ''@'' @ d1 @ ''.'' @ d2 \<or> email = l @ ''@'' @ d1 @ ''.'' @ d2 @ [newline]"
    and l: "list_all (in_class local_class) l"
    and d1: "list_all (in_class label_class) d1"
    and d2: "list_all (in_class rest_class) d2"
    unfolding check_syntax_iff by blast
  have nl: "CHR ''@'' \<notin> set l" using l local_class_not_at by (rule list_all_not_at)
  have n1: "CHR ''@'' \<notin> set d1" using d1 label_class_not_at by (rule list_all_not_at)
  have n2: "CHR ''@'' \<notin> set d2" using d2 rest_class_not_at by (rule list_all_not_at)
  from s show ?thesis
  proof
    assume "email = l @ ''@'' @ d1 @ ''.'' @ d2"
    then have "email = l @ ''@'' @ (d1 @ ''.'' @ d2)" by simp
    moreover have "CHR ''@'' \<notin> set (d1 @ ''.'' @ d2)" using n1 n2 by simp
    ultimately show ?thesis using nl by blast
  next
    assume "email = l @ ''@'' @ d1 @ ''.'' @ d2 @ [newline]"
    then have "email = l @ ''@'' @ (d1 @ ''.'' @ d2 @ [newline])" by simp
    moreover have "CHR ''@'' \<notin> set (d1 @ ''.'' @ d2 @ [newline])"
      using n1 n2 by (simp add: newline_def)
    ultimately show ?thesis using nl by blast
  qed
qed

lemma check_syntax_domain:
  assumes "check_syntax email"
  shows "\<exists>d. domain_of email = Inr d"
  using check_syntax_decomp [OF assms] one_at_split by blast

text \<open>
  Claim C4, as stated, at \<open>a@b..c\<close>: the address is accepted although its domain has an
  empty label, so acceptance is not "exactly" the shape of non-empty labels separated by
  dots.
\<close>

theorem check_syntax_empty_label_counterexample:
  "check_syntax ''a@b..c'' \<and> \<not> spec_address ''a@b..c''"
proof -
  have "check_syntax ''a@b..c''" by code_simp
  moreover have "\<not> spec_address ''a@b..c''" by code_simp
  ultimately show ?thesis by simp
qed

text \<open>
  Claim C4, amended: \<open>check_syntax\<close> accepts exactly the strings made of a non-empty
  local part of characters \<open>[A-Za-z0-9_.+-]\<close>, one \<open>@\<close>, a non-empty first label of
  characters \<open>[A-Za-z0-9-]\<close>, a dot, and a non-empty remainder of characters
  \<open>[A-Za-z0-9.-]\<close> (so the domain has at least one dot, and what follows the first dot
  may hold empty labels or end in a dot), optionally followed by one final newline. It
  accepts \<open>user.name+tag@sub.example.com\<close> and rejects \<open>user@@example.com\<close>,
  \<open>noatsymbol.com\<close> and \<open>trailing.dot@example.\<close>.
\<close>

theorem check_syntax_shape:
  "(check_syntax s \<longleftrightarrow>
     (\<exists>l d1 d2.
        (s = l @ ''@'' @ d1 @ ''.'' @ d2 \<or> s = l @ ''@'' @ d1 @ ''.'' @ d2 @ [newline]) \<and>
        l \<noteq> [] \<and> list_all (in_class local_class) l \<and>
        d1 \<noteq> [] \<and> list_all (in_class label_class) d1 \<and>
        d2 \<noteq> [] \<and> list_all (in_class rest_class) d2)) \<and>
   check_syntax ''user.name+tag@sub.example.com'' \<and>
   \<not> check_syntax ''user@@example.com'' \<and>
   \<not> check_syntax ''noatsymbol.com'' \<and>
   \<not> check_syntax ''trailing.dot@example.''"
proof -
  have "check_syntax ''user.name+tag@sub.example.com''" by code_simp
  moreover have "\<not> check_syntax ''user@@example.com''" by code_simp
  moreover have "\<not> check_syntax ''noatsymbol.com''" by code_simp
  moreover have "\<not> check_syntax ''trailing.dot@example.''" by code_simp
  ultimately show ?thesis using check_syntax_iff [of s] by blast
qed

theorem check_syntax_shape_witness:
  "check_syntax ''a@b.c'' \<and>
   (\<exists>l d1 d2.
        (''a@b.c'' = l @ ''@'' @ d1 @ ''.'' @ d2 \<or> ''a@b.c'' = l @ ''@'' @ d1 @ ''.'' @ d2 @ [newline]) \<and>
        l \<noteq> [] \<and> list_all (in_class local_class) l \<and>
        d1 \<noteq> [] \<and> list_all (in_class label_class) d1 \<and>
        d2 \<noteq> [] \<and> list_all (in_class rest_class) d2)"
proof -
  have h: "check_syntax ''a@b.c''" by code_simp
  from check_syntax_shape [of "''a@b.c''"] h show ?thesis by blast
qed

text \<open>
  Claim C10: an accepted string holds exactly one \<open>@\<close>; splitting it at \<open>@\<close> gives
  two components, the index 1 is in range, and the second component is everything
  after the \<open>@\<close>, which is not empty.
\<close>

theorem accepted_address_single_at:
  assumes "check_syntax email"
  shows "count_list email CHR ''@'' = 1 \<and>
         (\<exists>l d. py_split CHR ''@'' email = [l, d] \<and> email = l @ ''@'' @ d \<and>
                d \<noteq> [] \<and> domain_of email = Inr d)"
proof -
  from check_syntax_decomp [OF assms] obtain l d where
    e: "email = l @ ''@'' @ d" and n: "CHR ''@'' \<notin> set l" "CHR ''@'' \<notin> set d" and d: "d \<noteq> []"
    by blast
  from one_at_split [OF n] e d show ?thesis by blast
qed

theorem accepted_address_single_at_witness:
  "check_syntax ''user.name+tag@sub.example.com'' \<and>
   count_list ''user.name+tag@sub.example.com'' CHR ''@'' = 1 \<and>
   domain_of ''user.name+tag@sub.example.com'' = Inr ''sub.example.com''"
proof -
  have h: "check_syntax ''user.name+tag@sub.example.com''" by code_simp
  have d: "domain_of ''user.name+tag@sub.example.com'' = Inr ''sub.example.com''"
    by (simp add: domain_of_def py_index_def)
  from accepted_address_single_at [OF h] h d show ?thesis by simp
qed

section \<open>Reasoning about runs\<close>

lemma wp_return: "wp (io_return x) Q t = Q (Inr x) t"
  by (simp add: wp_def io_return_def)

lemma wp_raise: "wp (io_raise e) Q t = Q (Inl e) t"
  by (simp add: wp_def io_raise_def)

lemma wp_of: "wp (io_of r) Q t = Q r t"
  by (simp add: wp_def io_of_def)

lemma wp_bind:
  "wp (io_bind m f) Q t =
     wp m (\<lambda>r t'. case r of Inl e \<Rightarrow> Q (Inl e) t' | Inr x \<Rightarrow> wp (f x) Q t') t"
  by (simp add: wp_def io_bind_def split: prod.splits sum.splits)

lemma wp_try:
  "wp (io_try m h) Q t =
     wp m (\<lambda>r t'. case r of Inl e \<Rightarrow> wp (h e) Q t' | Inr x \<Rightarrow> Q (Inr x) t') t"
  by (simp add: wp_def io_try_def split: prod.splits sum.splits)

lemma wp_if: "wp (if c then a else b) Q t = (if c then wp a Q t else wp b Q t)"
  by simp

lemma wp_resolve:
  "wp (resolve net domain) Q t =
     (case dns net t domain of
        Inl e \<Rightarrow> Q (Inl (DnsExn e)) (t @ [DnsEvent domain (Inl e)])
      | Inr rs \<Rightarrow> Q (Inr rs) (t @ [DnsEvent domain (Inr rs)]))"
  by (simp add: wp_def resolve_def Let_def split: sum.splits)

lemma wp_smtp_call:
  "wp (smtp_call net cmd) Q t =
     (case smtp net t cmd of
        SmtpRaise \<Rightarrow> Q (Inl SmtpExn) (t @ [SmtpEvent cmd SmtpRaise])
      | SmtpReply code \<Rightarrow> Q (Inr code) (t @ [SmtpEvent cmd (SmtpReply code)]))"
  by (simp add: wp_def smtp_call_def Let_def split: smtp_reply.splits)

lemma wp_sleep: "wp (sleep secs) Q t = Q (Inr ()) (t @ [SleepEvent secs])"
  by (simp add: wp_def sleep_def)

lemma wp_with_smtp:
  "wp (with_smtp net host body) Q t =
     (case smtp net t (Connect host) of
        SmtpRaise \<Rightarrow> Q (Inl SmtpExn) (t @ [SmtpEvent (Connect host) SmtpRaise])
      | SmtpReply code \<Rightarrow>
          wp body
            (\<lambda>r t1. case smtp net t1 Exit of
                      SmtpRaise \<Rightarrow> Q (Inl SmtpExn) (t1 @ [SmtpEvent Exit SmtpRaise])
                    | SmtpReply c \<Rightarrow> Q r (t1 @ [SmtpEvent Exit (SmtpReply c)]))
            (t @ [SmtpEvent (Connect host) (SmtpReply code)]))"
  by (simp add: wp_def with_smtp_def io_bind_def smtp_call_def Let_def
      split: smtp_reply.splits prod.splits sum.splits)

lemmas wp_rules = wp_return wp_raise wp_of wp_bind wp_try wp_if wp_resolve wp_smtp_call
  wp_sleep wp_with_smtp

lemma wp_run:
  "wp m (\<lambda>r t'. P r (drop (length t) t')) t \<Longrightarrow> P (outcome m t) (new_events m t)"
  by (simp add: wp_def outcome_def new_events_def)

lemma wp_pair: "wp m (\<lambda>r t'. P (r, t')) t \<Longrightarrow> P (m t)"
  by (simp add: wp_def)

section \<open>The catch-all probe\<close>

lemmas probe_simps = py_index_def probe_accepts_def rcpt_replied_def

subsection \<open>One probe session\<close>

lemma v8_catch_all_gmail:
  "is_gmail_domain domain \<Longrightarrow>
   wp (v8_check_catch_all net domain)
     (\<lambda>r t'. r = Inr (probe_accepts ''fake-email@gmail.com'' (\<lambda>c. c \<noteq> 550)
                       (drop (length t) t'))) t"
  unfolding v8_check_catch_all_def
  by (simp add: wp_rules probe_simps split: sum.split smtp_reply.split)


lemma eemail_catch_all_gmail:
  "is_gmail_domain domain \<Longrightarrow>
   wp (eemail_check_catch_all net domain)
     (\<lambda>r t'. r = Inr (probe_accepts ''fake-email@gmail.com'' (\<lambda>c. c \<noteq> 550)
                       (drop (length t) t'))) t"
  unfolding eemail_check_catch_all_def
  by (simp add: wp_rules probe_simps split: sum.split smtp_reply.split)

lemma eemail_catch_all_other:
  "\<not> is_gmail_domain domain \<Longrightarrow>
   wp (eemail_check_catch_all net domain)
     (\<lambda>r t'. r = Inr (probe_accepts (''fake-email@'' @ domain) (\<lambda>c. c = 250)
                       (drop (length t) t'))) t"
  unfolding eemail_check_catch_all_def
  by (simp add: wp_rules probe_simps split: sum.split smtp_reply.split)

lemma v12_catch_all:
  "wp (v12_check_catch_all net domain)
     (\<lambda>r t'. r = Inr (probe_accepts (''nonexistent@'' @ domain) (\<lambda>c. c = 250)
                       (drop (length t) t'))) t"
  unfolding v12_check_catch_all_def
  by (simp add: wp_rules probe_simps split: sum.split smtp_reply.split)

subsection \<open>The loop of the unnamed part's \<open>check_catch_all\<close>\<close>

lemma p0_ca_loop_end:
  "\<not> rc < max_retries \<Longrightarrow> p0_check_catch_all_loop net domain rc t = (Inr False, t)"
  by (subst p0_check_catch_all_loop.simps) (simp add: io_return_def)

lemma p0_ca_loop_timeout:
  "rc < max_retries \<Longrightarrow> dns net t domain = Inl Timeout \<Longrightarrow>
   p0_check_catch_all_loop net domain rc t =
     p0_check_catch_all_loop net domain (rc + 1) (t @ [DnsEvent domain (Inl Timeout)])"
  by (subst p0_check_catch_all_loop.simps)
     (simp add: io_try_def io_bind_def resolve_def)

lemma p0_ca_attempt_gmail:
  "rc < max_retries \<Longrightarrow> dns net t domain \<noteq> Inl Timeout \<Longrightarrow> is_gmail_domain domain \<Longrightarrow>
   wp (p0_check_catch_all_loop net domain rc)
     (\<lambda>r t'. \<exists>session. t' = t @ DnsEvent domain (dns net t domain) # session \<and>
        session_post ''fake-email@gmail.com'' (\<lambda>c. c \<noteq> 550) r session) t"
  by (subst p0_check_catch_all_loop.simps)
     (simp add: wp_rules probe_simps session_post_def
        split: sum.split smtp_reply.split dns_error.split)

lemma p0_ca_attempt_other:
  "rc < max_retries \<Longrightarrow> dns net t domain \<noteq> Inl Timeout \<Longrightarrow> \<not> is_gmail_domain domain \<Longrightarrow>
   wp (p0_check_catch_all_loop net domain rc)
     (\<lambda>r t'. \<exists>session. t' = t @ DnsEvent domain (dns net t domain) # session \<and>
        session_post (''fake-email@'' @ domain) (\<lambda>c. c = 250) r session) t"
  by (subst p0_check_catch_all_loop.simps)
     (simp add: wp_rules probe_simps session_post_def
        split: sum.split smtp_reply.split dns_error.split)

lemma session_post_empty: "session_post rcpt P (Inr False) []"
  by (simp add: session_post_def probe_accepts_def)

lemma p0_ca_post_none: "p0_ca_post domain rcpt P n (Inr False) []"
  unfolding p0_ca_post_def
  by (intro exI [of _ "[]"]) (simp add: session_post_empty)

lemma p0_ca_post_single:
  assumes "session_post rcpt P r session"
  shows "p0_ca_post domain rcpt P (Suc n) r (DnsEvent domain rep # session)"
  unfolding p0_ca_post_def
  using assms by (intro exI [of _ "[rep]"] exI [of _ session]) simp

lemma p0_ca_post_step:
  assumes "p0_ca_post domain rcpt P n r evs"
  shows "p0_ca_post domain rcpt P (Suc n) r (DnsEvent domain (Inl Timeout) # evs)"
proof -
  from assms obtain replies session where
    e: "evs = map (DnsEvent domain) replies @ session" and l: "length replies \<le> n" and
    b: "list_all (\<lambda>rep. rep = Inl Timeout) (butlast replies)" and
    p: "session_post rcpt P r session"
    unfolding p0_ca_post_def by blast
  have "list_all (\<lambda>rep. rep = Inl Timeout) (butlast (Inl Timeout # replies))"
    using b by (cases replies) simp_all
  with e l p show ?thesis
    unfolding p0_ca_post_def
    by (intro exI [of _ "Inl Timeout # replies"] exI [of _ session]) simp
qed

lemma p0_ca_loop:
  assumes attempt:
    "\<And>t rc. rc < max_retries \<Longrightarrow> dns net t domain \<noteq> Inl Timeout \<Longrightarrow>
       wp (p0_check_catch_all_loop net domain rc)
         (\<lambda>r t'. \<exists>session. t' = t @ DnsEvent domain (dns net t domain) # session \<and>
            session_post rcpt P r session) t"
  shows "wp (p0_check_catch_all_loop net domain rc)
           (\<lambda>r t'. \<exists>evs. t' = t @ evs \<and> p0_ca_post domain rcpt P (max_retries - rc) r evs) t"
proof (induction "max_retries - rc" arbitrary: rc t)
  case 0
  then have "\<not> rc < max_retries" by simp
  then show ?case
    by (simp add: wp_def p0_ca_loop_end p0_ca_post_none)
next
  case (Suc n)
  then have lt: "rc < max_retries" and n: "n = max_retries - (rc + 1)"
    and sn: "max_retries - rc = Suc n" by simp_all
  show ?case
  proof (cases "dns net t domain = Inl Timeout")
    case True
    let ?t = "t @ [DnsEvent domain (Inl Timeout)]"
    from Suc.hyps(1) [OF n, of ?t] obtain evs where
      s: "snd (p0_check_catch_all_loop net domain (rc + 1) ?t) = ?t @ evs" and
      p: "p0_ca_post domain rcpt P n
            (fst (p0_check_catch_all_loop net domain (rc + 1) ?t)) evs"
      unfolding wp_def n by blast
    from p0_ca_post_step [OF p] s show ?thesis
      unfolding wp_def sn p0_ca_loop_timeout [OF lt True] by simp
  next
    case False
    from attempt [OF lt False] obtain session where
      s: "snd (p0_check_catch_all_loop net domain rc t) =
            t @ DnsEvent domain (dns net t domain) # session" and
      p: "session_post rcpt P (fst (p0_check_catch_all_loop net domain rc t)) session"
      unfolding wp_def by blast
    from p0_ca_post_single [OF p] s show ?thesis
      unfolding wp_def sn by simp
  qed
qed

lemma probe_accepts_after_lookups:
  "probe_accepts rcpt P (map (DnsEvent domain) replies @ session) =
   probe_accepts rcpt P session"
  by (induction replies) (simp_all add: probe_accepts_def rcpt_replied_def)

lemma p0_ca_post_outcome:
  "p0_ca_post domain rcpt P n r evs \<Longrightarrow> r = Inr (probe_accepts rcpt P evs)"
  unfolding p0_ca_post_def session_post_def
  by (auto simp: probe_accepts_after_lookups)

lemma p0_catch_all_gmail:
  assumes "is_gmail_domain domain"
  shows "p0_ca_post domain ''fake-email@gmail.com'' (\<lambda>c. c \<noteq> 550) max_retries
           (outcome (p0_check_catch_all net domain) t)
           (new_events (p0_check_catch_all net domain) t)"
proof -
  have "wp (p0_check_catch_all_loop net domain 0)
          (\<lambda>r t'. \<exists>evs. t' = t @ evs \<and>
             p0_ca_post domain ''fake-email@gmail.com'' (\<lambda>c. c \<noteq> 550) (max_retries - 0) r evs) t"
    by (rule p0_ca_loop) (rule p0_ca_attempt_gmail [OF _ _ assms])
  then show ?thesis
    by (auto simp: wp_def outcome_def new_events_def p0_check_catch_all_def)
qed

lemma p0_catch_all_other:
  assumes "\<not> is_gmail_domain domain"
  shows "p0_ca_post domain (''fake-email@'' @ domain) (\<lambda>c. c = 250) max_retries
           (outcome (p0_check_catch_all net domain) t)
           (new_events (p0_check_catch_all net domain) t)"
proof -
  have "wp (p0_check_catch_all_loop net domain 0)
          (\<lambda>r t'. \<exists>evs. t' = t @ evs \<and>
             p0_ca_post domain (''fake-email@'' @ domain) (\<lambda>c. c = 250) (max_retries - 0) r evs) t"
    by (rule p0_ca_loop) (rule p0_ca_attempt_other [OF _ _ assms])
  then show ?thesis
    by (auto simp: wp_def outcome_def new_events_def p0_check_catch_all_def)
qed

subsection \<open>Running the scripts in the concrete worlds\<close>

lemmas run_simps = io_return_def io_raise_def io_of_def io_bind_def io_try_def resolve_def
  smtp_call_def sleep_def with_smtp_def Let_def py_index_def outcome_def new_events_def
  mx_of_def smtp_ok_def

lemma gmail_is_gmail: "is_gmail_domain ''gmail.com''"
  by (simp add: is_gmail_domain_def lower_def lower_char_def)

lemma example_not_gmail: "\<not> is_gmail_domain ''example.com''"
  by (simp add: is_gmail_domain_def lower_def lower_char_def)

lemma user_domain: "domain_of ''user@example.com'' = Inr ''example.com''"
  by (simp add: domain_of_def py_index_def)

lemma v8_gmail_accept_run:
  "v8_check_catch_all net_accept_all ''gmail.com'' [] =
     (Inr True,
      [DnsEvent ''gmail.com'' (Inr [mx_of 10 ''mx.example.com'']),
       SmtpEvent (Connect ''mx.example.com'') (SmtpReply 220),
       SmtpEvent EhloOrHelo (SmtpReply 250),
       SmtpEvent (Mail ''test@gmail.com'') (SmtpReply 250),
       SmtpEvent (Rcpt ''fake-email@gmail.com'') (SmtpReply 250),
       SmtpEvent Exit (SmtpReply 221)])"
  by (simp add: v8_check_catch_all_def gmail_is_gmail net_accept_all_def run_simps)

lemma v8_gmail_reject_run:
  "v8_check_catch_all net_reject_rcpt ''gmail.com'' [] =
     (Inr False,
      [DnsEvent ''gmail.com'' (Inr [mx_of 10 ''mx.example.com'']),
       SmtpEvent (Connect ''mx.example.com'') (SmtpReply 220),
       SmtpEvent EhloOrHelo (SmtpReply 250),
       SmtpEvent (Mail ''test@gmail.com'') (SmtpReply 250),
       SmtpEvent (Rcpt ''fake-email@gmail.com'') (SmtpReply 550),
       SmtpEvent Exit (SmtpReply 221)])"
  by (simp add: v8_check_catch_all_def gmail_is_gmail net_reject_rcpt_def run_simps)

lemma eemail_gmail_accept_run:
  "eemail_check_catch_all net_accept_all ''gmail.com'' [] =
     (Inr True,
      [DnsEvent ''gmail.com'' (Inr [mx_of 10 ''mx.example.com'']),
       SmtpEvent (Connect ''mx.example.com'') (SmtpReply 220),
       SmtpEvent Helo (SmtpReply 250),
       SmtpEvent (Mail ''test@gmail.com'') (SmtpReply 250),
       SmtpEvent (Rcpt ''fake-email@gmail.com'') (SmtpReply 250),
       SmtpEvent Quit (SmtpReply 221)])"
  by (simp add: eemail_check_catch_all_def gmail_is_gmail net_accept_all_def run_simps)

lemma p0_gmail_accept_run:
  "p0_check_catch_all net_accept_all ''gmail.com'' [] =
     (Inr True,
      [DnsEvent ''gmail.com'' (Inr [mx_of 10 ''mx.example.com'']),
       SmtpEvent (Connect ''mx.example.com'') (SmtpReply 220),
       SmtpEvent Helo (SmtpReply 250),
       SmtpEvent (Mail ''test@gmail.com'') (SmtpReply 250),
       SmtpEvent (Rcpt ''fake-email@gmail.com'') (SmtpReply 250),
       SmtpEvent Quit (SmtpReply 221)])"
  by (simp add: p0_check_catch_all_def p0_check_catch_all_loop.simps [of _ _ 0]
      max_retries_def gmail_is_gmail net_accept_all_def run_simps)






text \<open>
  Claim C2, as stated, at \<open>gmail.com\<close> in a world whose server answers the RCPT for the
  synthetic recipient with 250: the reply code is not 550 and \<open>check_catch_all\<close>
  returns \<open>True\<close>, not \<open>False\<close>.
\<close>

theorem gmail_non_550_counterexample:
  "outcome (v8_check_catch_all net_accept_all ''gmail.com'') [] = Inr True \<and>
   list_ex (rcpt_replied ''fake-email@gmail.com'' (\<lambda>c. c = 250))
     (new_events (v8_check_catch_all net_accept_all ''gmail.com'') [])"
  by (simp add: outcome_def new_events_def v8_gmail_accept_run rcpt_replied_def)

text \<open>
  Claim C2, amended: for \<open>gmail.com\<close> (in any letter case), \<open>check_catch_all\<close> returns
  \<open>True\<close> exactly when the probe completes without an SMTP call raising and the RCPT
  for \<open>fake-email@gmail.com\<close> is answered with a code other than 550; it returns
  \<open>False\<close> when the code is 550 and when the probe fails. This holds in
  \<open>emailv8.py\<close>, \<open>eemail.py\<close> and the unnamed part.
\<close>

theorem gmail_catch_all_policy:
  assumes "is_gmail_domain domain"
  shows
    "outcome (v8_check_catch_all net domain) t =
       Inr (probe_accepts ''fake-email@gmail.com'' (\<lambda>c. c \<noteq> 550)
              (new_events (v8_check_catch_all net domain) t)) \<and>
     outcome (eemail_check_catch_all net domain) t =
       Inr (probe_accepts ''fake-email@gmail.com'' (\<lambda>c. c \<noteq> 550)
              (new_events (eemail_check_catch_all net domain) t)) \<and>
     outcome (p0_check_catch_all net domain) t =
       Inr (probe_accepts ''fake-email@gmail.com'' (\<lambda>c. c \<noteq> 550)
              (new_events (p0_check_catch_all net domain) t))"
proof -
  have "outcome (v8_check_catch_all net domain) t =
       Inr (probe_accepts ''fake-email@gmail.com'' (\<lambda>c. c \<noteq> 550)
              (new_events (v8_check_catch_all net domain) t))"
    using v8_catch_all_gmail [OF assms, of net t]
    by (simp add: wp_def outcome_def new_events_def)
  moreover have "outcome (eemail_check_catch_all net domain) t =
       Inr (probe_accepts ''fake-email@gmail.com'' (\<lambda>c. c \<noteq> 550)
              (new_events (eemail_check_catch_all net domain) t))"
    using eemail_catch_all_gmail [OF assms, of net t]
    by (simp add: wp_def outcome_def new_events_def)
  moreover have "outcome (p0_check_catch_all net domain) t =
       Inr (probe_accepts ''fake-email@gmail.com'' (\<lambda>c. c \<noteq> 550)
              (new_events (p0_check_catch_all net domain) t))"
    using p0_catch_all_gmail [OF assms, of net t] by (rule p0_ca_post_outcome)
  ultimately show ?thesis by simp
qed

theorem gmail_catch_all_policy_witness:
  "is_gmail_domain ''gmail.com'' \<and>
   outcome (v8_check_catch_all net_accept_all ''gmail.com'') [] = Inr True \<and>
   outcome (eemail_check_catch_all net_accept_all ''gmail.com'') [] = Inr True \<and>
   outcome (p0_check_catch_all net_accept_all ''gmail.com'') [] = Inr True \<and>
   outcome (v8_check_catch_all net_reject_rcpt ''gmail.com'') [] = Inr False"
proof -
  have a: "new_events (v8_check_catch_all net_accept_all ''gmail.com'') [] =
           snd (v8_check_catch_all net_accept_all ''gmail.com'' [])"
    and b: "new_events (eemail_check_catch_all net_accept_all ''gmail.com'') [] =
           snd (eemail_check_catch_all net_accept_all ''gmail.com'' [])"
    and c: "new_events (p0_check_catch_all net_accept_all ''gmail.com'') [] =
           snd (p0_check_catch_all net_accept_all ''gmail.com'' [])"
    and d: "new_events (v8_check_catch_all net_reject_rcpt ''gmail.com'') [] =
           snd (v8_check_catch_all net_reject_rcpt ''gmail.com'' [])"
    by (simp_all add: new_events_def)
  from gmail_catch_all_policy [OF gmail_is_gmail, of net_accept_all "[]"]
       gmail_catch_all_policy [OF gmail_is_gmail, of net_reject_rcpt "[]"]
  show ?thesis
    unfolding a b c d v8_gmail_accept_run eemail_gmail_accept_run p0_gmail_accept_run
      v8_gmail_reject_run
    by (simp add: gmail_is_gmail probe_accepts_def rcpt_replied_def)
qed



section \<open>Retrying the MX lookup\<close>

subsection \<open>The loop of the unnamed part's \<open>check_mail_server\<close>\<close>

lemma p0_ms_post_step:
  assumes "p0_ms_post domain n r evs"
  shows "p0_ms_post domain (Suc n) r (DnsEvent domain (Inl Timeout) # evs)"
proof -
  from assms obtain replies where
    e: "evs = map (DnsEvent domain) replies" and l: "length replies \<le> n" and
    ne: "0 < n \<longrightarrow> replies \<noteq> []" and
    b: "list_all (\<lambda>rep. rep = Inl Timeout) (butlast replies)" and
    z: "replies = [] \<longrightarrow> r = Inr False" and
    c: "replies \<noteq> [] \<longrightarrow>
           (case last replies of
              Inl Timeout \<Rightarrow> length replies = n \<and> r = Inr False
            | Inl NoAnswer \<Rightarrow> r = Inr False
            | Inl NXDOMAIN \<Rightarrow> r = Inr False
            | Inl OtherDnsError \<Rightarrow> r = Inl (DnsExn OtherDnsError)
            | Inr rs \<Rightarrow> r = Inr (rs \<noteq> []))"
    unfolding p0_ms_post_def by blast
  show ?thesis
  proof (cases "replies = []")
    case True
    with e l ne z show ?thesis
      unfolding p0_ms_post_def
      by (intro exI [of _ "[Inl Timeout]"]) auto
  next
    case False
    with e l b c show ?thesis
      unfolding p0_ms_post_def
      by (intro exI [of _ "Inl Timeout # replies"])
         (auto split: sum.splits dns_error.splits)
  qed
qed

lemma p0_ms_loop:
  "wp (p0_check_mail_server_loop net domain rc)
      (\<lambda>r t'. \<exists>evs. t' = t @ evs \<and> p0_ms_post domain (max_retries - rc) r evs) t"
proof (induction net domain rc arbitrary: t rule: p0_check_mail_server_loop.induct)
  case (1 net domain rc)
  show ?case
  proof (cases "rc < max_retries")
    case False
    then show ?thesis
      by (subst p0_check_mail_server_loop.simps)
         (simp add: wp_rules p0_ms_post_def)
  next
    case True
    then have n: "max_retries - rc = Suc (max_retries - (rc + 1))" by simp
    have one: "\<And>rep. rep \<noteq> Inl Timeout \<Longrightarrow>
        p0_ms_post domain (max_retries - rc)
          (case rep of Inl NoAnswer \<Rightarrow> Inr False | Inl NXDOMAIN \<Rightarrow> Inr False
                     | Inl e \<Rightarrow> Inl (DnsExn e) | Inr rs \<Rightarrow> Inr (rs \<noteq> []))
          [DnsEvent domain rep]"
      using True unfolding p0_ms_post_def
      by (intro exI [of _ "[rep]" for rep]) (auto split: sum.splits dns_error.splits)
    show ?thesis
    proof (cases "dns net t domain = Inl Timeout")
      case False
      with True one [OF False] show ?thesis
        by (subst p0_check_mail_server_loop.simps)
           (auto simp add: wp_rules split: sum.splits dns_error.splits)
    next
      case to: True
      have "wp (p0_check_mail_server_loop net domain (rc + 1))
              (\<lambda>r t'. \<exists>evs. t' = (t @ [DnsEvent domain (Inl Timeout)]) @ evs \<and>
                        p0_ms_post domain (max_retries - (rc + 1)) r evs)
              (t @ [DnsEvent domain (Inl Timeout)])"
        using "1.IH" [of "DnsExn Timeout" "t @ [DnsEvent domain (Inl Timeout)]"] True by simp
      then obtain evs where
        s: "snd (p0_check_mail_server_loop net domain (rc + 1) (t @ [DnsEvent domain (Inl Timeout)]))
              = (t @ [DnsEvent domain (Inl Timeout)]) @ evs" and
        p: "p0_ms_post domain (max_retries - (rc + 1))
              (fst (p0_check_mail_server_loop net domain (rc + 1) (t @ [DnsEvent domain (Inl Timeout)])))
              evs"
        unfolding wp_def by blast
      from p0_ms_post_step [OF p] n s True to show ?thesis
        by (subst p0_check_mail_server_loop.simps)
           (simp add: wp_rules, simp add: wp_def)
    qed
  qed
qed

lemma p0_mail_server_run:
  "p0_ms_post domain max_retries
     (outcome (p0_check_mail_server net domain) t)
     (new_events (p0_check_mail_server net domain) t)"
  using p0_ms_loop [of net domain 0 t]
  by (auto simp: wp_def outcome_def new_events_def p0_check_mail_server_def)

lemma p0_mail_server_negative:
  assumes "dns net t domain = Inl NoAnswer \<or> dns net t domain = Inl NXDOMAIN"
  shows "p0_check_mail_server net domain t =
           (Inr False, t @ [DnsEvent domain (dns net t domain)])"
  unfolding p0_check_mail_server_def
  using assms
  by (subst p0_check_mail_server_loop.simps)
     (auto simp: max_retries_def io_try_def io_bind_def resolve_def io_return_def)

subsection \<open>The retry wrapper of \<open>emailv13.py\<close>\<close>

lemma upt_retries: "[0..<retries] = [0, 1, 2]"
  by (simp add: retries_def upt_rec)

lemma wp_retry_connection:
  "wp (retry_connection func) Q t =
     wp func
       (\<lambda>r1 t1. case r1 of
           Inl e \<Rightarrow> Q (Inl e) t1
         | Inr b1 \<Rightarrow>
             if b1 then Q (Inr (Some True)) t1
             else wp func
               (\<lambda>r2 t2. case r2 of
                   Inl e \<Rightarrow> Q (Inl e) t2
                 | Inr b2 \<Rightarrow>
                     if b2 then Q (Inr (Some True)) t2
                     else wp func
                       (\<lambda>r3 t3. case r3 of
                           Inl e \<Rightarrow> Q (Inl e) t3
                         | Inr b3 \<Rightarrow> Q (Inr (Some b3)) t3)
                       (t2 @ [SleepEvent 2]))
               (t1 @ [SleepEvent 1])) t"
  unfolding retry_connection_def upt_retries
  by (simp add: wp_rules retries_def cong: sum.case_cong if_cong)


lemma p0_ms_loop_end:
  "\<not> rc < max_retries \<Longrightarrow> p0_check_mail_server_loop net domain rc t = (Inr False, t)"
  by (subst p0_check_mail_server_loop.simps) (simp add: io_return_def)

lemma p0_ms_loop_timeout:
  "rc < max_retries \<Longrightarrow> dns net t domain = Inl Timeout \<Longrightarrow>
   p0_check_mail_server_loop net domain rc t =
     p0_check_mail_server_loop net domain (rc + 1) (t @ [DnsEvent domain (Inl Timeout)])"
  by (subst p0_check_mail_server_loop.simps)
     (simp add: io_try_def io_bind_def resolve_def)

lemma p0_ms_timeout_run:
  "p0_check_mail_server net_timeout ''example.com'' [] =
     (Inr False,
      [DnsEvent ''example.com'' (Inl Timeout),
       DnsEvent ''example.com'' (Inl Timeout),
       DnsEvent ''example.com'' (Inl Timeout)])"
  by (simp add: p0_check_mail_server_def p0_ms_loop_timeout p0_ms_loop_end max_retries_def
      net_timeout_def)

lemma v13_ms_nxdomain_run:
  "v13_check_mail_server net_nxdomain ''nonexistent.invalid'' [] =
     (Inr (Some False),
      [DnsEvent ''nonexistent.invalid'' (Inl NXDOMAIN), SleepEvent 1,
       DnsEvent ''nonexistent.invalid'' (Inl NXDOMAIN), SleepEvent 2,
       DnsEvent ''nonexistent.invalid'' (Inl NXDOMAIN)])"
  unfolding v13_check_mail_server_def retry_connection_def upt_retries
  by (simp add: v13_check_mail_server_body_def retries_def net_nxdomain_def run_simps)

text \<open>
  Claim C5, as stated, in two worlds. Where the domain does not exist, \<open>emailv13.py\<close>
  repeats the lookup twice after the authoritative answer instead of returning at
  once. Where every lookup times out, the unnamed part repeats the lookup with nothing
  between the attempts: there is no backoff.
\<close>

theorem mx_lookup_retry_counterexample:
  "new_events (v13_check_mail_server net_nxdomain ''nonexistent.invalid'') [] =
     [DnsEvent ''nonexistent.invalid'' (Inl NXDOMAIN), SleepEvent 1,
      DnsEvent ''nonexistent.invalid'' (Inl NXDOMAIN), SleepEvent 2,
      DnsEvent ''nonexistent.invalid'' (Inl NXDOMAIN)] \<and>
   new_events (p0_check_mail_server net_timeout ''example.com'') [] =
     [DnsEvent ''example.com'' (Inl Timeout),
      DnsEvent ''example.com'' (Inl Timeout),
      DnsEvent ''example.com'' (Inl Timeout)]"
  by (simp add: new_events_def v13_ms_nxdomain_run p0_ms_timeout_run)

lemma p0_ms_loop_single:
  "rc < max_retries \<Longrightarrow> dns net t domain \<noteq> Inl Timeout \<Longrightarrow>
   snd (p0_check_mail_server_loop net domain rc t) =
     t @ [DnsEvent domain (dns net t domain)]"
proof -
  assume a: "rc < max_retries" "dns net t domain \<noteq> Inl Timeout"
  have "wp (p0_check_mail_server_loop net domain rc)
          (\<lambda>r t'. t' = t @ [DnsEvent domain (dns net t domain)]) t"
    using a
    by (subst p0_check_mail_server_loop.simps)
       (auto simp add: wp_rules split: sum.splits dns_error.splits)
  then show ?thesis by (simp add: wp_def)
qed

lemma p0_ms_loop_replies:
  "\<exists>replies. snd (p0_check_mail_server_loop net domain rc t) =
               t @ map (DnsEvent domain) replies \<and>
             replies_from net domain t replies"
proof (induction "max_retries - rc" arbitrary: rc t)
  case 0
  then have "\<not> rc < max_retries" by simp
  then show ?case
    by (intro exI [of _ "[]"]) (simp add: p0_ms_loop_end)
next
  case (Suc n)
  then have lt: "rc < max_retries" and n: "n = max_retries - (rc + 1)" by simp_all
  show ?case
  proof (cases "dns net t domain = Inl Timeout")
    case True
    from Suc.hyps(1) [OF n, of "t @ [DnsEvent domain (Inl Timeout)]"] obtain replies where
      s: "snd (p0_check_mail_server_loop net domain (rc + 1)
                (t @ [DnsEvent domain (Inl Timeout)])) =
            (t @ [DnsEvent domain (Inl Timeout)]) @ map (DnsEvent domain) replies" and
      r: "replies_from net domain (t @ [DnsEvent domain (Inl Timeout)]) replies"
      by blast
    from s r True show ?thesis
      unfolding p0_ms_loop_timeout [OF lt True]
      by (intro exI [of _ "Inl Timeout # replies"]) simp
  next
    case False
    from p0_ms_loop_single [OF lt False] show ?thesis
      by (intro exI [of _ "[dns net t domain]"]) simp
  qed
qed

lemma v13_mail_server_exact:
  "v13_check_mail_server net domain t =
     (let r1 = dns net t domain;
          r2 = dns net (t @ [DnsEvent domain r1, SleepEvent 1]) domain;
          r3 = dns net (t @ [DnsEvent domain r1, SleepEvent 1, DnsEvent domain r2,
                             SleepEvent 2]) domain
      in if lookup_ok r1 then (Inr (Some True), t @ [DnsEvent domain r1])
         else if lookup_ok r2
           then (Inr (Some True), t @ [DnsEvent domain r1, SleepEvent 1, DnsEvent domain r2])
           else (Inr (Some (lookup_ok r3)),
                 t @ [DnsEvent domain r1, SleepEvent 1, DnsEvent domain r2, SleepEvent 2,
                      DnsEvent domain r3]))"
proof -
  have "wp (v13_check_mail_server net domain)
     (\<lambda>r t'. (r, t') =
     (let r1 = dns net t domain;
          r2 = dns net (t @ [DnsEvent domain r1, SleepEvent 1]) domain;
          r3 = dns net (t @ [DnsEvent domain r1, SleepEvent 1, DnsEvent domain r2,
                             SleepEvent 2]) domain
      in if lookup_ok r1 then (Inr (Some True), t @ [DnsEvent domain r1])
         else if lookup_ok r2
           then (Inr (Some True), t @ [DnsEvent domain r1, SleepEvent 1, DnsEvent domain r2])
           else (Inr (Some (lookup_ok r3)),
                 t @ [DnsEvent domain r1, SleepEvent 1, DnsEvent domain r2, SleepEvent 2,
                      DnsEvent domain r3]))) t"
    unfolding v13_check_mail_server_def wp_retry_connection v13_check_mail_server_body_def
    by (simp add: wp_rules lookup_ok_def Let_def del: One_nat_def split: sum.split)
  then show ?thesis by (simp add: wp_def)
qed

lemma p0_ms_timeout_nxdomain_run:
  "p0_check_mail_server net_timeout_then_nxdomain ''example.com'' [] =
     (Inr False,
      [DnsEvent ''example.com'' (Inl Timeout), DnsEvent ''example.com'' (Inl NXDOMAIN)])"
proof -
  have 1: "p0_check_mail_server_loop net_timeout_then_nxdomain ''example.com'' 0 [] =
           p0_check_mail_server_loop net_timeout_then_nxdomain ''example.com'' (0 + 1)
             ([] @ [DnsEvent ''example.com'' (Inl Timeout)])"
    by (rule p0_ms_loop_timeout) (simp_all add: max_retries_def net_timeout_then_nxdomain_def)
  show ?thesis
    unfolding p0_check_mail_server_def 1
    by (subst p0_check_mail_server_loop.simps)
       (simp add: max_retries_def net_timeout_then_nxdomain_def run_simps)
qed

text \<open>
  Claim C5, amended. In the unnamed part, \<open>check_mail_server\<close> returns \<open>False\<close> at once,
  after the one lookup, when the answer is \<open>NoAnswer\<close> or \<open>NXDOMAIN\<close>. Its run is made
  of one to three lookups, each answered by the world, and nothing else (no sleep
  between them); every lookup but the last timed out, and the last lookup decides: an
  authoritative negative answer gives \<open>False\<close>, a timeout means that there were three
  lookups and gives \<open>False\<close>, and an answer gives whether it has a record. In
  \<open>emailv13.py\<close>, \<open>check_mail_server\<close> repeats every failed lookup (an exception of any
  kind, or an empty answer), sleeping 1 second after the first and 2 seconds after the
  second failure; it returns \<open>True\<close> at the first lookup that succeeds and, after two
  failures, what the third lookup gives.
\<close>

theorem mx_lookup_retry_policy:
  "((dns net t domain = Inl NoAnswer \<or> dns net t domain = Inl NXDOMAIN) \<longrightarrow>
      p0_check_mail_server net domain t =
        (Inr False, t @ [DnsEvent domain (dns net t domain)])) \<and>
   (\<exists>replies.
      new_events (p0_check_mail_server net domain) t = map (DnsEvent domain) replies \<and>
      replies_from net domain t replies \<and>
      replies \<noteq> [] \<and> length replies \<le> 3 \<and>
      list_all (\<lambda>rep. rep = Inl Timeout) (butlast replies) \<and>
      (last replies = Inl NoAnswer \<or> last replies = Inl NXDOMAIN \<longrightarrow>
         outcome (p0_check_mail_server net domain) t = Inr False) \<and>
      (last replies = Inl Timeout \<longrightarrow>
         length replies = 3 \<and> outcome (p0_check_mail_server net domain) t = Inr False) \<and>
      (\<forall>rs. last replies = Inr rs \<longrightarrow>
         outcome (p0_check_mail_server net domain) t = Inr (rs \<noteq> []))) \<and>
   v13_check_mail_server net domain t =
     (let r1 = dns net t domain;
          r2 = dns net (t @ [DnsEvent domain r1, SleepEvent 1]) domain;
          r3 = dns net (t @ [DnsEvent domain r1, SleepEvent 1, DnsEvent domain r2,
                             SleepEvent 2]) domain
      in if lookup_ok r1 then (Inr (Some True), t @ [DnsEvent domain r1])
         else if lookup_ok r2
           then (Inr (Some True), t @ [DnsEvent domain r1, SleepEvent 1, DnsEvent domain r2])
           else (Inr (Some (lookup_ok r3)),
                 t @ [DnsEvent domain r1, SleepEvent 1, DnsEvent domain r2, SleepEvent 2,
                      DnsEvent domain r3]))"
proof -
  have a: "(dns net t domain = Inl NoAnswer \<or> dns net t domain = Inl NXDOMAIN) \<longrightarrow>
      p0_check_mail_server net domain t =
        (Inr False, t @ [DnsEvent domain (dns net t domain)])"
    using p0_mail_server_negative by blast
  from p0_mail_server_run [of domain net t] obtain replies where
    e: "new_events (p0_check_mail_server net domain) t = map (DnsEvent domain) replies" and
    l: "length replies \<le> max_retries" and ne: "replies \<noteq> []" and
    b: "list_all (\<lambda>rep. rep = Inl Timeout) (butlast replies)" and
    c: "case last replies of
              Inl Timeout \<Rightarrow> length replies = max_retries \<and>
                outcome (p0_check_mail_server net domain) t = Inr False
            | Inl NoAnswer \<Rightarrow> outcome (p0_check_mail_server net domain) t = Inr False
            | Inl NXDOMAIN \<Rightarrow> outcome (p0_check_mail_server net domain) t = Inr False
            | Inl OtherDnsError \<Rightarrow>
                outcome (p0_check_mail_server net domain) t = Inl (DnsExn OtherDnsError)
            | Inr rs \<Rightarrow> outcome (p0_check_mail_server net domain) t = Inr (rs \<noteq> [])"
    unfolding p0_ms_post_def by (auto simp: max_retries_def)
  from p0_ms_loop_replies [of net domain 0 t] obtain replies' where
    e': "new_events (p0_check_mail_server net domain) t = map (DnsEvent domain) replies'" and
    f: "replies_from net domain t replies'"
    by (auto simp: new_events_def p0_check_mail_server_def)
  have "inj (DnsEvent domain)" by (simp add: inj_def)
  with e e' have "replies' = replies" by (simp add: inj_map_eq_map)
  with f have f: "replies_from net domain t replies" by simp
  from c have r1: "last replies = Inl NoAnswer \<or> last replies = Inl NXDOMAIN \<longrightarrow>
         outcome (p0_check_mail_server net domain) t = Inr False"
    by auto
  from c have r2: "last replies = Inl Timeout \<longrightarrow>
         length replies = 3 \<and> outcome (p0_check_mail_server net domain) t = Inr False"
    by (auto simp: max_retries_def)
  from c have r3: "\<forall>rs. last replies = Inr rs \<longrightarrow>
         outcome (p0_check_mail_server net domain) t = Inr (rs \<noteq> [])"
    by auto
  from l have l3: "length replies \<le> 3" by (simp add: max_retries_def)
  have p: "\<exists>replies.
      new_events (p0_check_mail_server net domain) t = map (DnsEvent domain) replies \<and>
      replies_from net domain t replies \<and>
      replies \<noteq> [] \<and> length replies \<le> 3 \<and>
      list_all (\<lambda>rep. rep = Inl Timeout) (butlast replies) \<and>
      (last replies = Inl NoAnswer \<or> last replies = Inl NXDOMAIN \<longrightarrow>
         outcome (p0_check_mail_server net domain) t = Inr False) \<and>
      (last replies = Inl Timeout \<longrightarrow>
         length replies = 3 \<and> outcome (p0_check_mail_server net domain) t = Inr False) \<and>
      (\<forall>rs. last replies = Inr rs \<longrightarrow>
         outcome (p0_check_mail_server net domain) t = Inr (rs \<noteq> []))"
    using e f ne l3 b r1 r2 r3 by (intro exI [of _ replies]) simp
  from a p v13_mail_server_exact [of net domain t] show ?thesis
    by (simp only: simp_thms)
qed

theorem mx_lookup_retry_policy_witness:
  "dns net_nxdomain [] ''nonexistent.invalid'' = Inl NXDOMAIN \<and>
   p0_check_mail_server net_nxdomain ''nonexistent.invalid'' [] =
     (Inr False, [DnsEvent ''nonexistent.invalid'' (Inl NXDOMAIN)]) \<and>
   outcome (p0_check_mail_server net_timeout ''example.com'') [] = Inr False \<and>
   new_events (p0_check_mail_server net_timeout_then_nxdomain ''example.com'') [] =
     [DnsEvent ''example.com'' (Inl Timeout), DnsEvent ''example.com'' (Inl NXDOMAIN)] \<and>
   outcome (p0_check_mail_server net_timeout_then_nxdomain ''example.com'') [] = Inr False \<and>
   v13_check_mail_server net_nxdomain ''nonexistent.invalid'' [] =
     (Inr (Some False),
      [DnsEvent ''nonexistent.invalid'' (Inl NXDOMAIN), SleepEvent 1,
       DnsEvent ''nonexistent.invalid'' (Inl NXDOMAIN), SleepEvent 2,
       DnsEvent ''nonexistent.invalid'' (Inl NXDOMAIN)]) \<and>
   v13_check_mail_server net_accept_all ''example.com'' [] =
     (Inr (Some True), [DnsEvent ''example.com'' (Inr [mx_of 10 ''mx.example.com''])])"
proof -
  have d: "dns net_nxdomain [] ''nonexistent.invalid'' = Inl NXDOMAIN"
    by (simp add: net_nxdomain_def)
  have n: "new_events (p0_check_mail_server net_timeout ''example.com'') [] =
             map (DnsEvent ''example.com'') [Inl Timeout, Inl Timeout, Inl Timeout]"
    by (simp add: new_events_def p0_ms_timeout_run)
  have m: "new_events (p0_check_mail_server net_timeout_then_nxdomain ''example.com'') [] =
             map (DnsEvent ''example.com'') [Inl Timeout, Inl NXDOMAIN]"
    by (simp add: new_events_def p0_ms_timeout_nxdomain_run)
  have "inj (DnsEvent ''example.com'')"
    by (simp add: inj_def)
  then have inj: "\<And>xs ys. map (DnsEvent ''example.com'') xs = map (DnsEvent ''example.com'') ys
               \<Longrightarrow> xs = ys"
    by (simp add: inj_map_eq_map)
  from mx_lookup_retry_policy [of net_nxdomain "[]" "''nonexistent.invalid''"] d
  have 1: "p0_check_mail_server net_nxdomain ''nonexistent.invalid'' [] =
     (Inr False, [DnsEvent ''nonexistent.invalid'' (Inl NXDOMAIN)])"
    by simp
  from mx_lookup_retry_policy [of net_timeout "[]" "''example.com''"] obtain replies where
    "new_events (p0_check_mail_server net_timeout ''example.com'') [] =
       map (DnsEvent ''example.com'') replies"
    "last replies = Inl Timeout \<longrightarrow>
       outcome (p0_check_mail_server net_timeout ''example.com'') [] = Inr False"
    by blast
  with n inj have 2: "outcome (p0_check_mail_server net_timeout ''example.com'') [] = Inr False"
    by (metis last.simps list.distinct(1))
  from mx_lookup_retry_policy [of net_timeout_then_nxdomain "[]" "''example.com''"]
  obtain replies where
    "new_events (p0_check_mail_server net_timeout_then_nxdomain ''example.com'') [] =
       map (DnsEvent ''example.com'') replies"
    "last replies = Inl NoAnswer \<or> last replies = Inl NXDOMAIN \<longrightarrow>
       outcome (p0_check_mail_server net_timeout_then_nxdomain ''example.com'') [] = Inr False"
    by blast
  with m inj have 3:
    "outcome (p0_check_mail_server net_timeout_then_nxdomain ''example.com'') [] = Inr False"
    by (metis last.simps list.distinct(1))
  from mx_lookup_retry_policy [of net_nxdomain "[]" "''nonexistent.invalid''"]
  have 4: "v13_check_mail_server net_nxdomain ''nonexistent.invalid'' [] =
     (Inr (Some False),
      [DnsEvent ''nonexistent.invalid'' (Inl NXDOMAIN), SleepEvent 1,
       DnsEvent ''nonexistent.invalid'' (Inl NXDOMAIN), SleepEvent 2,
       DnsEvent ''nonexistent.invalid'' (Inl NXDOMAIN)])"
    by (simp add: Let_def lookup_ok_def net_nxdomain_def)
  from mx_lookup_retry_policy [of net_accept_all "[]" "''example.com''"]
  have 5: "v13_check_mail_server net_accept_all ''example.com'' [] =
     (Inr (Some True), [DnsEvent ''example.com'' (Inr [mx_of 10 ''mx.example.com''])])"
    by (simp add: Let_def lookup_ok_def net_accept_all_def)
  from m have m': "new_events (p0_check_mail_server net_timeout_then_nxdomain ''example.com'') [] =
     [DnsEvent ''example.com'' (Inl Timeout), DnsEvent ''example.com'' (Inl NXDOMAIN)]"
    by simp
  from d 1 2 m' 3 4 5 show ?thesis by simp
qed

section \<open>Retrying SMTP probes\<close>

subsection \<open>One attempt of \<open>check_connection\<close> in \<open>emailv13.py\<close>\<close>

lemma v13_connection_attempt:
  "\<exists>evs. snd (v13_check_connection_body net email t) = t @ evs \<and>
         length (filter is_connect evs) \<le> 1 \<and> \<not> list_ex is_sleep evs"
proof (cases "domain_of email")
  case (Inl e)
  then show ?thesis
    by (simp add: v13_check_connection_body_def io_bind_def io_of_def)
next
  case (Inr d)
  define sender where "sender = ''your-email@example.com''"
  have "wp (v13_check_connection_body net email)
          (\<lambda>r t'. \<exists>evs. t' = t @ evs \<and>
                   length (filter is_connect evs) \<le> 1 \<and> \<not> list_ex is_sleep evs) t"
    unfolding v13_check_connection_body_def Inr sender_def [symmetric]
    by (simp add: wp_rules py_index_def split: sum.split smtp_reply.split)
  then show ?thesis
    unfolding wp_def by blast
qed

lemma retry_connection_events:
  assumes "\<And>t. \<exists>evs. snd (func t) = t @ evs \<and> A evs"
  shows "\<exists>a1 a2 a3. A a1 \<and> A a2 \<and> A a3 \<and>
           (new_events (retry_connection func) t = a1 \<or>
            new_events (retry_connection func) t = a1 @ SleepEvent 1 # a2 \<or>
            new_events (retry_connection func) t = a1 @ SleepEvent 1 # a2 @ SleepEvent 2 # a3)"
proof -
  from assms [of t] obtain a1 where
    s1: "snd (func t) = t @ a1" and A1: "A a1" by blast
  from assms [of "t @ a1 @ [SleepEvent 1]"] obtain a2 where
    s2: "snd (func (t @ a1 @ [SleepEvent 1])) = t @ a1 @ SleepEvent 1 # a2" and A2: "A a2"
    by auto
  from assms [of "t @ a1 @ SleepEvent 1 # a2 @ [SleepEvent 2]"] obtain a3 where
    s3: "snd (func (t @ a1 @ SleepEvent 1 # a2 @ [SleepEvent 2])) =
           t @ a1 @ SleepEvent 1 # a2 @ SleepEvent 2 # a3" and A3: "A a3"
    by auto
  have "wp (retry_connection func)
          (\<lambda>r t'. drop (length t) t' = a1 \<or>
                   drop (length t) t' = a1 @ SleepEvent 1 # a2 \<or>
                   drop (length t) t' = a1 @ SleepEvent 1 # a2 @ SleepEvent 2 # a3) t"
    unfolding wp_retry_connection
    by (simp add: wp_def s1 s2 s3 del: One_nat_def split: sum.split)
  with A1 A2 A3 show ?thesis
    unfolding wp_def new_events_def by blast
qed

lemma no_sleep_filter: "\<not> list_ex is_sleep evs \<Longrightarrow> filter is_sleep evs = []"
  by (induction evs) auto

lemma v13_connection_run:
  "length (filter is_connect (new_events (v13_check_connection net email) t)) \<le> 3 \<and>
   (filter is_sleep (new_events (v13_check_connection net email) t) = [] \<or>
    filter is_sleep (new_events (v13_check_connection net email) t) = [SleepEvent 1] \<or>
    filter is_sleep (new_events (v13_check_connection net email) t) =
      [SleepEvent 1, SleepEvent 2]) \<and>
   length (filter is_connect (new_events (v13_check_connection net email) t)) \<le>
     Suc (length (filter is_sleep (new_events (v13_check_connection net email) t)))"
proof -
  let ?A = "\<lambda>evs. length (filter is_connect evs) \<le> 1 \<and> \<not> list_ex is_sleep evs"
  from retry_connection_events [of "v13_check_connection_body net email" ?A t]
    v13_connection_attempt [of net email]
  obtain a1 a2 a3 where
    A: "?A a1" "?A a2" "?A a3" and
    e: "new_events (v13_check_connection net email) t = a1 \<or>
        new_events (v13_check_connection net email) t = a1 @ SleepEvent 1 # a2 \<or>
        new_events (v13_check_connection net email) t =
          a1 @ SleepEvent 1 # a2 @ SleepEvent 2 # a3"
    unfolding v13_check_connection_def by blast
  from A have f: "filter is_sleep a1 = []" "filter is_sleep a2 = []" "filter is_sleep a3 = []"
    by (simp_all add: no_sleep_filter)
  from e show ?thesis
  proof (elim disjE)
    assume "new_events (v13_check_connection net email) t = a1"
    with A f show ?thesis by simp
  next
    assume "new_events (v13_check_connection net email) t = a1 @ SleepEvent 1 # a2"
    with A f show ?thesis by simp
  next
    assume "new_events (v13_check_connection net email) t =
              a1 @ SleepEvent 1 # a2 @ SleepEvent 2 # a3"
    with A f show ?thesis by simp
  qed
qed

lemma p0_ca_post_structure:
  assumes "p0_ca_post domain rcpt P max_retries r evs"
  shows "\<exists>replies session.
     evs = map (DnsEvent domain) replies @ session \<and>
     length replies \<le> 3 \<and> list_all (\<lambda>rep. rep = Inl Timeout) (butlast replies) \<and>
     list_all is_smtp session \<and> length (filter is_connect session) \<le> 1 \<and>
     (list_ex is_smtp_raise session \<longrightarrow> is_smtp_raise (last session) \<and> r = Inr False)"
proof -
  from assms obtain replies session where
    e: "evs = map (DnsEvent domain) replies @ session" and
    l: "length replies \<le> max_retries" and
    b: "list_all (\<lambda>rep. rep = Inl Timeout) (butlast replies)" and
    s: "session_post rcpt P r session"
    unfolding p0_ca_post_def by blast
  from s have
    "list_all is_smtp session" "length (filter is_connect session) \<le> 1"
    "list_ex is_smtp_raise session \<longrightarrow> is_smtp_raise (last session) \<and> r = Inr False"
    by (simp_all add: session_post_def probe_accepts_def)
  with e l b show ?thesis
    unfolding max_retries_def by blast
qed

lemma p0_catch_all_structure:
  "\<exists>replies session.
     new_events (p0_check_catch_all net domain) t = map (DnsEvent domain) replies @ session \<and>
     length replies \<le> 3 \<and> list_all (\<lambda>rep. rep = Inl Timeout) (butlast replies) \<and>
     list_all is_smtp session \<and> length (filter is_connect session) \<le> 1 \<and>
     (list_ex is_smtp_raise session \<longrightarrow>
        is_smtp_raise (last session) \<and>
        outcome (p0_check_catch_all net domain) t = Inr False)"
proof (cases "is_gmail_domain domain")
  case True
  from p0_catch_all_gmail [OF True, of net t] show ?thesis
    by (rule p0_ca_post_structure)
next
  case False
  from p0_catch_all_other [OF False, of net t] show ?thesis
    by (rule p0_ca_post_structure)
qed

lemma v13_connection_refused_run:
  "v13_check_connection net_refused ''user@example.com'' [] =
     (Inr (Some False),
      [DnsEvent ''example.com'' (Inr [mx_of 10 ''mx.example.com'']),
       SmtpEvent (Connect ''mx.example.com'') SmtpRaise,
       SleepEvent 1,
       DnsEvent ''example.com'' (Inr [mx_of 10 ''mx.example.com'']),
       SmtpEvent (Connect ''mx.example.com'') SmtpRaise,
       SleepEvent 2,
       DnsEvent ''example.com'' (Inr [mx_of 10 ''mx.example.com'']),
       SmtpEvent (Connect ''mx.example.com'') SmtpRaise])"
  unfolding v13_check_connection_def retry_connection_def upt_retries
  by (simp add: v13_check_connection_body_def retries_def net_refused_def run_simps
      domain_of_def)

lemma p0_catch_all_refused_run:
  "p0_check_catch_all net_refused ''example.com'' [] =
     (Inr False,
      [DnsEvent ''example.com'' (Inr [mx_of 10 ''mx.example.com'']),
       SmtpEvent (Connect ''mx.example.com'') SmtpRaise])"
  by (simp add: p0_check_catch_all_def p0_check_catch_all_loop.simps [of _ _ 0]
      max_retries_def net_refused_def run_simps)

text \<open>
  Claim C6, as stated, in a world where the exchanger refuses every connection: one
  call of \<open>check_connection\<close> of \<open>emailv13.py\<close> opens three SMTP connections, the second
  and third after the first one failed.
\<close>

theorem smtp_retry_counterexample:
  "new_events (v13_check_connection net_refused ''user@example.com'') [] =
     [DnsEvent ''example.com'' (Inr [mx_of 10 ''mx.example.com'']),
      SmtpEvent (Connect ''mx.example.com'') SmtpRaise,
      SleepEvent 1,
      DnsEvent ''example.com'' (Inr [mx_of 10 ''mx.example.com'']),
      SmtpEvent (Connect ''mx.example.com'') SmtpRaise,
      SleepEvent 2,
      DnsEvent ''example.com'' (Inr [mx_of 10 ''mx.example.com'']),
      SmtpEvent (Connect ''mx.example.com'') SmtpRaise] \<and>
   length (filter is_connect
     (new_events (v13_check_connection net_refused ''user@example.com'') [])) = 3"
  by (simp add: new_events_def v13_connection_refused_run)

lemma v13_connection_attempt_exact:
  assumes "domain_of email = Inr d"
  shows "\<exists>session.
     snd (v13_check_connection_body net email u) =
       u @ DnsEvent d (dns net u d) # session \<and>
     list_all is_smtp session \<and>
     (lookup_ok (dns net u d) \<longrightarrow> length (filter is_connect session) = 1) \<and>
     (\<not> lookup_ok (dns net u d) \<longrightarrow> session = []) \<and>
     fst (v13_check_connection_body net email u) =
       Inr (probe_accepts email (\<lambda>c. c = 250 \<or> c = 251) session)"
proof -
  define sender where "sender = ''your-email@example.com''"
  have "wp (v13_check_connection_body net email)
     (\<lambda>r t'. \<exists>session.
        t' = u @ DnsEvent d (dns net u d) # session \<and>
        list_all is_smtp session \<and>
        (lookup_ok (dns net u d) \<longrightarrow> length (filter is_connect session) = 1) \<and>
        (\<not> lookup_ok (dns net u d) \<longrightarrow> session = []) \<and>
        r = Inr (probe_accepts email (\<lambda>c. c = 250 \<or> c = 251) session)) u"
    unfolding v13_check_connection_body_def assms sender_def [symmetric]
    by (simp add: wp_rules py_index_def lookup_ok_def probe_accepts_def rcpt_replied_def
        split: sum.split smtp_reply.split)
  then show ?thesis by (simp add: wp_def)
qed

lemma retry_connection_exact:
  assumes total: "\<And>u. fst (func u) = Inr True \<or> fst (func u) = Inr False"
  shows "retry_connection func t =
     (let a1 = func t;
          a2 = func (snd a1 @ [SleepEvent 1]);
          a3 = func (snd a2 @ [SleepEvent 2])
      in if fst a1 = Inr True then (Inr (Some True), snd a1)
         else if fst a2 = Inr True then (Inr (Some True), snd a2)
         else (Inr (Some (fst a3 = Inr True)), snd a3))"
proof -
  let ?t1 = "snd (func t) @ [SleepEvent 1]"
  let ?t2 = "snd (func ?t1) @ [SleepEvent 2]"
  have "wp (retry_connection func)
     (\<lambda>r t'. (r, t') =
     (let a1 = func t;
          a2 = func (snd a1 @ [SleepEvent 1]);
          a3 = func (snd a2 @ [SleepEvent 2])
      in if fst a1 = Inr True then (Inr (Some True), snd a1)
         else if fst a2 = Inr True then (Inr (Some True), snd a2)
         else (Inr (Some (fst a3 = Inr True)), snd a3))) t"
    unfolding wp_retry_connection
    using total [of t] total [of ?t1] total [of ?t2]
    by (elim disjE) (simp_all add: wp_def Let_def del: One_nat_def)
  then show ?thesis by (simp add: wp_def)
qed

lemma v13_connection_exact:
  assumes "domain_of email = Inr d"
  shows "v13_check_connection net email t =
     (let a1 = v13_check_connection_body net email t;
          a2 = v13_check_connection_body net email (snd a1 @ [SleepEvent 1]);
          a3 = v13_check_connection_body net email (snd a2 @ [SleepEvent 2])
      in if fst a1 = Inr True then (Inr (Some True), snd a1)
         else if fst a2 = Inr True then (Inr (Some True), snd a2)
         else (Inr (Some (fst a3 = Inr True)), snd a3))"
proof -
  have "\<And>u. fst (v13_check_connection_body net email u) = Inr True \<or>
            fst (v13_check_connection_body net email u) = Inr False"
    using v13_connection_attempt_exact [OF assms, of net] by (metis (full_types))
  then show ?thesis
    unfolding v13_check_connection_def by (rule retry_connection_exact)
qed

lemma v13_body_refused_run:
  "v13_check_connection_body net_refused ''user@example.com'' u =
     (Inr False,
      u @ [DnsEvent ''example.com'' (Inr [mx_of 10 ''mx.example.com'']),
           SmtpEvent (Connect ''mx.example.com'') SmtpRaise])"
  by (simp add: v13_check_connection_body_def net_refused_def run_simps user_domain)

lemma v13_body_recovering_first_run:
  "v13_check_connection_body net_recovering ''user@example.com'' [] =
     (Inr False,
      [DnsEvent ''example.com'' (Inr [mx_of 10 ''mx.example.com'']),
       SmtpEvent (Connect ''mx.example.com'') SmtpRaise])"
  by (simp add: v13_check_connection_body_def net_recovering_def run_simps user_domain)

lemma v13_body_recovering_second_run:
  "v13_check_connection_body net_recovering ''user@example.com''
     [DnsEvent ''example.com'' (Inr [mx_of 10 ''mx.example.com'']),
      SmtpEvent (Connect ''mx.example.com'') SmtpRaise,
      SleepEvent 1] =
     (Inr True,
      [DnsEvent ''example.com'' (Inr [mx_of 10 ''mx.example.com'']),
       SmtpEvent (Connect ''mx.example.com'') SmtpRaise,
       SleepEvent 1,
       DnsEvent ''example.com'' (Inr [mx_of 10 ''mx.example.com'']),
       SmtpEvent (Connect ''mx.example.com'') (SmtpReply 220),
       SmtpEvent EhloOrHelo (SmtpReply 250),
       SmtpEvent (Mail ''your-email@example.com'') (SmtpReply 250),
       SmtpEvent (Rcpt ''user@example.com'') (SmtpReply 250),
       SmtpEvent Exit (SmtpReply 221)])"
  by (simp add: v13_check_connection_body_def net_recovering_def run_simps user_domain)

text \<open>
  Claim C6, amended. In \<open>emailv13.py\<close>, \<open>check_connection\<close> runs under
  \<open>retry_connection\<close>. One attempt makes the lookup and, when the lookup gives a record,
  opens exactly one SMTP connection; it succeeds exactly when the RCPT for the address
  is answered 250 or 251 and no SMTP call raised. An attempt that succeeds ends the
  call with \<open>True\<close>. A first attempt that fails, for whatever reason, is followed by a
  sleep of 1 second and a second attempt; a second failure by a sleep of 2 seconds and
  a third attempt, whose result is the result of the call. So a failed SMTP probe is
  repeated, up to three SMTP connections in one call. In the unnamed part,
  \<open>check_catch_all\<close> repeats only the lookup, and only after a lookup that timed out
  (at most three lookups); it opens at most one SMTP session, after the lookups, and
  an SMTP call that raises is the last event of the run and gives \<open>False\<close>.
\<close>

theorem smtp_retry_policy:
  "(domain_of email = Inr d \<longrightarrow>
      v13_check_connection net email t =
        (let a1 = v13_check_connection_body net email t;
             a2 = v13_check_connection_body net email (snd a1 @ [SleepEvent 1]);
             a3 = v13_check_connection_body net email (snd a2 @ [SleepEvent 2])
         in if fst a1 = Inr True then (Inr (Some True), snd a1)
            else if fst a2 = Inr True then (Inr (Some True), snd a2)
            else (Inr (Some (fst a3 = Inr True)), snd a3)) \<and>
      (\<forall>u. \<exists>session.
         snd (v13_check_connection_body net email u) =
           u @ DnsEvent d (dns net u d) # session \<and>
         list_all is_smtp session \<and>
         (lookup_ok (dns net u d) \<longrightarrow> length (filter is_connect session) = 1) \<and>
         (\<not> lookup_ok (dns net u d) \<longrightarrow> session = []) \<and>
         fst (v13_check_connection_body net email u) =
           Inr (probe_accepts email (\<lambda>c. c = 250 \<or> c = 251) session))) \<and>
   length (filter is_connect (new_events (v13_check_connection net email) t)) \<le> 3 \<and>
   (filter is_sleep (new_events (v13_check_connection net email) t) = [] \<or>
    filter is_sleep (new_events (v13_check_connection net email) t) = [SleepEvent 1] \<or>
    filter is_sleep (new_events (v13_check_connection net email) t) =
      [SleepEvent 1, SleepEvent 2]) \<and>
   length (filter is_connect (new_events (v13_check_connection net email) t)) \<le>
     Suc (length (filter is_sleep (new_events (v13_check_connection net email) t))) \<and>
   (\<exists>replies session.
      new_events (p0_check_catch_all net domain) t = map (DnsEvent domain) replies @ session \<and>
      length replies \<le> 3 \<and> list_all (\<lambda>rep. rep = Inl Timeout) (butlast replies) \<and>
      list_all is_smtp session \<and> length (filter is_connect session) \<le> 1 \<and>
      (list_ex is_smtp_raise session \<longrightarrow>
         is_smtp_raise (last session) \<and>
         outcome (p0_check_catch_all net domain) t = Inr False))"
proof -
  have a: "domain_of email = Inr d \<longrightarrow>
      v13_check_connection net email t =
        (let a1 = v13_check_connection_body net email t;
             a2 = v13_check_connection_body net email (snd a1 @ [SleepEvent 1]);
             a3 = v13_check_connection_body net email (snd a2 @ [SleepEvent 2])
         in if fst a1 = Inr True then (Inr (Some True), snd a1)
            else if fst a2 = Inr True then (Inr (Some True), snd a2)
            else (Inr (Some (fst a3 = Inr True)), snd a3)) \<and>
      (\<forall>u. \<exists>session.
         snd (v13_check_connection_body net email u) =
           u @ DnsEvent d (dns net u d) # session \<and>
         list_all is_smtp session \<and>
         (lookup_ok (dns net u d) \<longrightarrow> length (filter is_connect session) = 1) \<and>
         (\<not> lookup_ok (dns net u d) \<longrightarrow> session = []) \<and>
         fst (v13_check_connection_body net email u) =
           Inr (probe_accepts email (\<lambda>c. c = 250 \<or> c = 251) session))"
  proof
    assume d: "domain_of email = Inr d"
    from v13_connection_exact [OF d, of net t]
      v13_connection_attempt_exact [OF d, of net]
    show "v13_check_connection net email t =
        (let a1 = v13_check_connection_body net email t;
             a2 = v13_check_connection_body net email (snd a1 @ [SleepEvent 1]);
             a3 = v13_check_connection_body net email (snd a2 @ [SleepEvent 2])
         in if fst a1 = Inr True then (Inr (Some True), snd a1)
            else if fst a2 = Inr True then (Inr (Some True), snd a2)
            else (Inr (Some (fst a3 = Inr True)), snd a3)) \<and>
      (\<forall>u. \<exists>session.
         snd (v13_check_connection_body net email u) =
           u @ DnsEvent d (dns net u d) # session \<and>
         list_all is_smtp session \<and>
         (lookup_ok (dns net u d) \<longrightarrow> length (filter is_connect session) = 1) \<and>
         (\<not> lookup_ok (dns net u d) \<longrightarrow> session = []) \<and>
         fst (v13_check_connection_body net email u) =
           Inr (probe_accepts email (\<lambda>c. c = 250 \<or> c = 251) session))"
      by (intro conjI allI) assumption+
  qed
  from a v13_connection_run [of net email t] p0_catch_all_structure [of net domain t]
  show ?thesis by (simp only: simp_thms)
qed

theorem smtp_retry_policy_witness:
  "domain_of ''user@example.com'' = Inr ''example.com'' \<and>
   v13_check_connection net_refused ''user@example.com'' [] =
     (Inr (Some False),
      [DnsEvent ''example.com'' (Inr [mx_of 10 ''mx.example.com'']),
       SmtpEvent (Connect ''mx.example.com'') SmtpRaise,
       SleepEvent 1,
       DnsEvent ''example.com'' (Inr [mx_of 10 ''mx.example.com'']),
       SmtpEvent (Connect ''mx.example.com'') SmtpRaise,
       SleepEvent 2,
       DnsEvent ''example.com'' (Inr [mx_of 10 ''mx.example.com'']),
       SmtpEvent (Connect ''mx.example.com'') SmtpRaise]) \<and>
   v13_check_connection net_recovering ''user@example.com'' [] =
     (Inr (Some True),
      [DnsEvent ''example.com'' (Inr [mx_of 10 ''mx.example.com'']),
       SmtpEvent (Connect ''mx.example.com'') SmtpRaise,
       SleepEvent 1,
       DnsEvent ''example.com'' (Inr [mx_of 10 ''mx.example.com'']),
       SmtpEvent (Connect ''mx.example.com'') (SmtpReply 220),
       SmtpEvent EhloOrHelo (SmtpReply 250),
       SmtpEvent (Mail ''your-email@example.com'') (SmtpReply 250),
       SmtpEvent (Rcpt ''user@example.com'') (SmtpReply 250),
       SmtpEvent Exit (SmtpReply 221)]) \<and>
   list_ex is_smtp_raise (new_events (p0_check_catch_all net_refused ''example.com'') []) \<and>
   outcome (p0_check_catch_all net_refused ''example.com'') [] = Inr False \<and>
   length (filter is_connect
     (new_events (v13_check_connection net_refused ''user@example.com'') [])) \<le> 3"
proof -
  have n: "new_events (p0_check_catch_all net_refused ''example.com'') [] =
             [DnsEvent ''example.com'' (Inr [mx_of 10 ''mx.example.com'']),
              SmtpEvent (Connect ''mx.example.com'') SmtpRaise]"
    by (simp add: new_events_def p0_catch_all_refused_run)
  from smtp_retry_policy
    [of "''user@example.com''" "''example.com''" net_refused "[]" "''example.com''"]
  obtain replies session where
    e: "new_events (p0_check_catch_all net_refused ''example.com'') [] =
          map (DnsEvent ''example.com'') replies @ session" and
    s: "list_all is_smtp session" and
    r: "list_ex is_smtp_raise session \<longrightarrow>
          outcome (p0_check_catch_all net_refused ''example.com'') [] = Inr False" and
    c: "length (filter is_connect
          (new_events (v13_check_connection net_refused ''user@example.com'') [])) \<le> 3"
    by blast
  have "list_ex is_smtp_raise session"
  proof -
    have "list_ex is_smtp_raise (new_events (p0_check_catch_all net_refused ''example.com'') [])"
      by (simp add: n)
    then have "list_ex is_smtp_raise (map (DnsEvent ''example.com'') replies @ session)"
      by (simp only: e)
    then show ?thesis
      by (induction replies) simp_all
  qed
  with r n have p: "list_ex is_smtp_raise
      (new_events (p0_check_catch_all net_refused ''example.com'') [])"
    "outcome (p0_check_catch_all net_refused ''example.com'') [] = Inr False"
    by simp_all
  from smtp_retry_policy
    [of "''user@example.com''" "''example.com''" net_refused "[]" "''example.com''"]
    user_domain
  have 1: "v13_check_connection net_refused ''user@example.com'' [] =
     (Inr (Some False),
      [DnsEvent ''example.com'' (Inr [mx_of 10 ''mx.example.com'']),
       SmtpEvent (Connect ''mx.example.com'') SmtpRaise,
       SleepEvent 1,
       DnsEvent ''example.com'' (Inr [mx_of 10 ''mx.example.com'']),
       SmtpEvent (Connect ''mx.example.com'') SmtpRaise,
       SleepEvent 2,
       DnsEvent ''example.com'' (Inr [mx_of 10 ''mx.example.com'']),
       SmtpEvent (Connect ''mx.example.com'') SmtpRaise])"
    by (simp add: v13_body_refused_run Let_def del: One_nat_def)
  from smtp_retry_policy
    [of "''user@example.com''" "''example.com''" net_recovering "[]" "''example.com''"]
    user_domain
  have 2: "v13_check_connection net_recovering ''user@example.com'' [] =
     (Inr (Some True),
      [DnsEvent ''example.com'' (Inr [mx_of 10 ''mx.example.com'']),
       SmtpEvent (Connect ''mx.example.com'') SmtpRaise,
       SleepEvent 1,
       DnsEvent ''example.com'' (Inr [mx_of 10 ''mx.example.com'']),
       SmtpEvent (Connect ''mx.example.com'') (SmtpReply 220),
       SmtpEvent EhloOrHelo (SmtpReply 250),
       SmtpEvent (Mail ''your-email@example.com'') (SmtpReply 250),
       SmtpEvent (Rcpt ''user@example.com'') (SmtpReply 250),
       SmtpEvent Exit (SmtpReply 221)])"
    by (simp add: v13_body_recovering_first_run v13_body_recovering_second_run Let_def
        del: One_nat_def)
  from user_domain 1 2 p c show ?thesis by (simp only: simp_thms)
qed

section \<open>The connection stage and rejected addresses\<close>

subsection \<open>Which exchanger \<open>check_connection\<close> connects to\<close>

lemma v12_connection_target:
  assumes "domain_of email = Inr d"
  shows "wp (v12_check_connection net email)
           (\<lambda>r t'. (r = Inr True \<or> r = Inr False) \<and> length (filter is_connect (drop (length t) t')) \<le> 1 \<and>
              (\<forall>e \<in> set (drop (length t) t'). is_connect e \<longrightarrow>
                 (\<exists>rs rep. dns net t d = Inr rs \<and> rs \<noteq> [] \<and>
                    e = SmtpEvent (Connect (exchange (hd rs))) rep))) t"
proof -
  define sender where "sender = ''test@example.com''"
  show ?thesis
    unfolding v12_check_connection_def assms sender_def [symmetric]
    by (simp add: wp_rules py_index_def hd_conv_nth split: sum.split smtp_reply.split)
qed

lemma eemail_connection_target:
  assumes "domain_of email = Inr d"
  shows "wp (eemail_check_connection net email)
           (\<lambda>r t'. (r = Inr True \<or> r = Inr False) \<and> length (filter is_connect (drop (length t) t')) \<le> 1 \<and>
              (\<forall>e \<in> set (drop (length t) t'). is_connect e \<longrightarrow>
                 (\<exists>rs rep. dns net t d = Inr rs \<and> rs \<noteq> [] \<and>
                    e = SmtpEvent (Connect (exchange (hd rs))) rep))) t"
  unfolding eemail_check_connection_def assms
  by (simp add: wp_rules py_index_def hd_conv_nth split: sum.split smtp_reply.split)

lemma sorted_hd_least:
  "sorted (map preference rs) \<Longrightarrow> m \<in> set rs \<Longrightarrow> preference (hd rs) \<le> preference m"
  by (cases rs) auto

lemma v12_connection_unsorted_run:
  "v12_check_connection net_unsorted ''user@example.com'' [] =
     (Inr True,
      [DnsEvent ''example.com''
         (Inr [mx_of 20 ''backup.example.com'', mx_of 10 ''primary.example.com'']),
       SmtpEvent (Connect ''backup.example.com'') (SmtpReply 220),
       SmtpEvent EhloOrHelo (SmtpReply 250),
       SmtpEvent (Mail ''test@example.com'') (SmtpReply 250),
       SmtpEvent (Rcpt ''user@example.com'') (SmtpReply 250),
       SmtpEvent Exit (SmtpReply 221)])"
  by (simp add: v12_check_connection_def user_domain net_unsorted_def run_simps)

lemma v12_connection_accept_run:
  "v12_check_connection net_accept_all ''user@example.com'' [] =
     (Inr True,
      [DnsEvent ''example.com'' (Inr [mx_of 10 ''mx.example.com'']),
       SmtpEvent (Connect ''mx.example.com'') (SmtpReply 220),
       SmtpEvent EhloOrHelo (SmtpReply 250),
       SmtpEvent (Mail ''test@example.com'') (SmtpReply 250),
       SmtpEvent (Rcpt ''user@example.com'') (SmtpReply 250),
       SmtpEvent Exit (SmtpReply 221)])"
  by (simp add: v12_check_connection_def user_domain net_accept_all_def run_simps)

text \<open>
  Claim C7, as stated, in a world whose MX answer lists the exchanger of preference 20
  before the one of preference 10: the answer reaches \<open>check_connection\<close> unsorted, and
  the only connection goes to the exchanger of preference 20.
\<close>

theorem lowest_preference_counterexample:
  "new_events (v12_check_connection net_unsorted ''user@example.com'') [] =
     [DnsEvent ''example.com''
        (Inr [mx_of 20 ''backup.example.com'', mx_of 10 ''primary.example.com'']),
      SmtpEvent (Connect ''backup.example.com'') (SmtpReply 220),
      SmtpEvent EhloOrHelo (SmtpReply 250),
      SmtpEvent (Mail ''test@example.com'') (SmtpReply 250),
      SmtpEvent (Rcpt ''user@example.com'') (SmtpReply 250),
      SmtpEvent Exit (SmtpReply 221)] \<and>
   preference (mx_of 10 ''primary.example.com'') <
     preference (mx_of 20 ''backup.example.com'')"
  by (simp add: new_events_def v12_connection_unsorted_run mx_of_def)

text \<open>
  Claim C7, amended: the scripts take the MX answer in the order in which the resolver
  library delivers it and do not sort it; \<open>check_connection\<close> opens at most one SMTP
  connection, to the exchanger of the first record of that answer. That record has
  the lowest preference whenever the answer arrives sorted by preference.
\<close>

theorem probe_uses_first_mx_record:
  assumes "domain_of email = Inr d"
  shows
    "length (filter is_connect (new_events (v12_check_connection net email) t)) \<le> 1 \<and>
     (\<forall>e \<in> set (new_events (v12_check_connection net email) t). is_connect e \<longrightarrow>
        (\<exists>rs rep. dns net t d = Inr rs \<and> rs \<noteq> [] \<and>
           e = SmtpEvent (Connect (exchange (hd rs))) rep)) \<and>
     length (filter is_connect (new_events (eemail_check_connection net email) t)) \<le> 1 \<and>
     (\<forall>e \<in> set (new_events (eemail_check_connection net email) t). is_connect e \<longrightarrow>
        (\<exists>rs rep. dns net t d = Inr rs \<and> rs \<noteq> [] \<and>
           e = SmtpEvent (Connect (exchange (hd rs))) rep)) \<and>
     (\<forall>rs. sorted (map preference rs) \<longrightarrow>
        (\<forall>m \<in> set rs. preference (hd rs) \<le> preference m))"
  using v12_connection_target [OF assms, of net t] eemail_connection_target [OF assms, of net t]
    sorted_hd_least
  unfolding wp_def new_events_def by blast

theorem probe_uses_first_mx_record_witness:
  "domain_of ''user@example.com'' = Inr ''example.com'' \<and>
   SmtpEvent (Connect ''mx.example.com'') (SmtpReply 220) \<in>
     set (new_events (v12_check_connection net_accept_all ''user@example.com'') []) \<and>
   is_connect (SmtpEvent (Connect ''mx.example.com'') (SmtpReply 220)) \<and>
   (\<exists>rs rep. dns net_accept_all [] ''example.com'' = Inr rs \<and> rs \<noteq> [] \<and>
      SmtpEvent (Connect ''mx.example.com'') (SmtpReply 220) =
        SmtpEvent (Connect (exchange (hd rs))) rep)"
proof -
  have m: "SmtpEvent (Connect ''mx.example.com'') (SmtpReply 220) \<in>
     set (new_events (v12_check_connection net_accept_all ''user@example.com'') [])"
    by (simp add: new_events_def v12_connection_accept_run)
  have c: "is_connect (SmtpEvent (Connect ''mx.example.com'') (SmtpReply 220))"
    by simp
  from probe_uses_first_mx_record [OF user_domain, of net_accept_all "[]"] m c
  have "\<exists>rs rep. dns net_accept_all [] ''example.com'' = Inr rs \<and> rs \<noteq> [] \<and>
      SmtpEvent (Connect ''mx.example.com'') (SmtpReply 220) =
        SmtpEvent (Connect (exchange (hd rs))) rep"
    by blast
  with user_domain m c show ?thesis by blast
qed

subsection \<open>A rejected address\<close>

text \<open>
  Claim C9: for an address that \<open>check_syntax\<close> rejects, \<open>validate_email\<close> returns
  \<open>Invalid syntax\<close> and leaves the trace as it was: no lookup, no SMTP call, and no
  sleep took place.
\<close>

theorem invalid_syntax_no_network:
  assumes "\<not> check_syntax email"
  shows
    "eemail_validate_email net email t = (Inr (False, ''Invalid syntax''), t) \<and>
     new_events (eemail_validate_email net email) t = [] \<and>
     v13_validate_email net email t = (Inr (email, ''Invalid syntax''), t) \<and>
     new_events (v13_validate_email net email) t = []"
  using assms
  by (simp add: eemail_validate_email_def v13_validate_email_def io_return_def new_events_def)

theorem invalid_syntax_no_network_witness:
  "\<not> check_syntax ''bad syntax@@x'' \<and>
   eemail_validate_email net_accept_all ''bad syntax@@x'' [] =
     (Inr (False, ''Invalid syntax''), []) \<and>
   v13_validate_email net_accept_all ''bad syntax@@x'' [] =
     (Inr (''bad syntax@@x'', ''Invalid syntax''), [])"
proof -
  have h: "\<not> check_syntax ''bad syntax@@x''" by code_simp
  from invalid_syntax_no_network [OF h, of net_accept_all "[]"] h show ?thesis by simp
qed

section \<open>The pipeline\<close>

subsection \<open>The stages of \<open>validate_email\<close>\<close>

lemma v12_mail_server_total:
  "fst (v12_check_mail_server net d t) = Inr True \<or>
   fst (v12_check_mail_server net d t) = Inr False"
proof -
  have "wp (v12_check_mail_server net d) (\<lambda>r t'. r = Inr True \<or> r = Inr False) t"
    unfolding v12_check_mail_server_def
    by (simp add: wp_rules split: sum.split)
  then show ?thesis by (simp add: wp_def)
qed

lemma v12_connection_total:
  assumes "domain_of email = Inr d"
  shows "fst (v12_check_connection net email t) = Inr True \<or>
         fst (v12_check_connection net email t) = Inr False"
  using v12_connection_target [OF assms, of net t] by (simp add: wp_def)

lemma eemail_connection_total:
  assumes "domain_of email = Inr d"
  shows "fst (eemail_check_connection net email t) = Inr True \<or>
         fst (eemail_check_connection net email t) = Inr False"
  using eemail_connection_target [OF assms, of net t] by (simp add: wp_def)

lemma v12_catch_all_total:
  "fst (v12_check_catch_all net d t) = Inr True \<or>
   fst (v12_check_catch_all net d t) = Inr False"
  using v12_catch_all [of net d t] by (auto simp: wp_def)

lemma eemail_catch_all_total:
  "fst (eemail_check_catch_all net d t) = Inr True \<or>
   fst (eemail_check_catch_all net d t) = Inr False"
  using eemail_catch_all_gmail [of d net t] eemail_catch_all_other [of d net t]
  by (cases "is_gmail_domain d") (auto simp: wp_def)

lemma eemail_pipeline:
  assumes "check_syntax email" and "domain_of email = Inr d"
  shows
    "(let ms = eemail_check_mail_server net d t;
          conn = eemail_check_connection net email (snd ms);
          ca = eemail_check_catch_all net d (snd conn)
      in (fst ms = Inr False \<longrightarrow>
            eemail_validate_email net email t =
              (Inr (False, ''No MX records found''), snd ms)) \<and>
         (fst ms = Inr True \<and> fst conn = Inr False \<longrightarrow>
            eemail_validate_email net email t =
              (Inr (False, ''Cannot connect to mail server''), snd conn)) \<and>
         (fst ms = Inr True \<and> fst conn = Inr True \<and> fst ca = Inr True \<longrightarrow>
            eemail_validate_email net email t =
              (Inr (False, ''Domain has catch-all enabled''), snd ca)) \<and>
         (fst ms = Inr True \<and> fst conn = Inr True \<and> fst ca = Inr False \<longrightarrow>
            eemail_validate_email net email t =
              (Inr (True, ''Email is valid''), snd ca)) \<and>
         (fst conn = Inr True \<or> fst conn = Inr False) \<and>
         (fst ca = Inr True \<or> fst ca = Inr False))"
proof -
  obtain r1 t1 where ms: "eemail_check_mail_server net d t = (r1, t1)"
    by (cases "eemail_check_mail_server net d t")
  obtain r2 t2 where conn: "eemail_check_connection net email t1 = (r2, t2)"
    by (cases "eemail_check_connection net email t1")
  obtain r3 t3 where ca: "eemail_check_catch_all net d t2 = (r3, t3)"
    by (cases "eemail_check_catch_all net d t2")
  have c: "r2 = Inr True \<or> r2 = Inr False"
    using eemail_connection_total [OF assms(2), of net t1] conn by simp
  have a: "r3 = Inr True \<or> r3 = Inr False"
    using eemail_catch_all_total [of net d t2] ca by simp
  from assms c a show ?thesis
    by (auto simp: Let_def ms conn ca eemail_validate_email_def io_bind_def io_of_def
        io_return_def)
qed

lemma v12_pipeline:
  assumes "check_syntax email" and "domain_of email = Inr d"
  shows
    "(let ms = v12_check_mail_server net d t;
          ca = v12_check_catch_all net d (snd ms);
          conn = v12_check_connection net email (snd ca)
      in (fst ms = Inr False \<longrightarrow>
            v12_validate_email net email t =
              (Inr (email, ''No MX records found''), snd ms)) \<and>
         (fst ms = Inr True \<and> fst ca = Inr True \<longrightarrow>
            v12_validate_email net email t = (Inr (email, ''Valid''), snd ca)) \<and>
         (fst ms = Inr True \<and> fst ca = Inr False \<and> fst conn = Inr False \<longrightarrow>
            v12_validate_email net email t =
              (Inr (email, ''Cannot connect to mail server''), snd conn)) \<and>
         (fst ms = Inr True \<and> fst ca = Inr False \<and> fst conn = Inr True \<longrightarrow>
            v12_validate_email net email t = (Inr (email, ''Valid''), snd conn)) \<and>
         (fst ms = Inr True \<or> fst ms = Inr False) \<and>
         (fst ca = Inr True \<or> fst ca = Inr False) \<and>
         (fst conn = Inr True \<or> fst conn = Inr False))"
proof -
  obtain r1 t1 where ms: "v12_check_mail_server net d t = (r1, t1)"
    by (cases "v12_check_mail_server net d t")
  obtain r2 t2 where ca: "v12_check_catch_all net d t1 = (r2, t2)"
    by (cases "v12_check_catch_all net d t1")
  obtain r3 t3 where conn: "v12_check_connection net email t2 = (r3, t3)"
    by (cases "v12_check_connection net email t2")
  have m: "r1 = Inr True \<or> r1 = Inr False"
    using v12_mail_server_total [of net d t] ms by simp
  have a: "r2 = Inr True \<or> r2 = Inr False"
    using v12_catch_all_total [of net d t1] ca by simp
  have c: "r3 = Inr True \<or> r3 = Inr False"
    using v12_connection_total [OF assms(2), of net t2] conn by simp
  from assms m a c show ?thesis
    by (auto simp: Let_def ms conn ca v12_validate_email_def io_bind_def io_of_def
        io_return_def)
qed

lemma user_syntax: "check_syntax ''user@example.com''"
  by code_simp

lemmas stage_defs = eemail_check_mail_server_def eemail_check_connection_def
  eemail_check_catch_all_def v12_check_mail_server_def v12_check_connection_def
  v12_check_catch_all_def

lemma v12_validate_accept_run:
  "v12_validate_email net_accept_all ''user@example.com'' [] =
     (Inr (''user@example.com'', ''Valid''),
      [DnsEvent ''example.com'' (Inr [mx_of 10 ''mx.example.com'']),
       DnsEvent ''example.com'' (Inr [mx_of 10 ''mx.example.com'']),
       SmtpEvent (Connect ''mx.example.com'') (SmtpReply 220),
       SmtpEvent EhloOrHelo (SmtpReply 250),
       SmtpEvent (Mail ''test@example.com'') (SmtpReply 250),
       SmtpEvent (Rcpt ''nonexistent@example.com'') (SmtpReply 250),
       SmtpEvent Exit (SmtpReply 221)])"
  by (simp add: v12_validate_email_def user_syntax user_domain stage_defs net_accept_all_def
      run_simps)

lemma v12_catch_all_after_lookup_run:
  "v12_check_catch_all net_accept_all ''example.com''
     [DnsEvent ''example.com'' (Inr [mx_of 10 ''mx.example.com''])] =
     (Inr True,
      [DnsEvent ''example.com'' (Inr [mx_of 10 ''mx.example.com'']),
       DnsEvent ''example.com'' (Inr [mx_of 10 ''mx.example.com'']),
       SmtpEvent (Connect ''mx.example.com'') (SmtpReply 220),
       SmtpEvent EhloOrHelo (SmtpReply 250),
       SmtpEvent (Mail ''test@example.com'') (SmtpReply 250),
       SmtpEvent (Rcpt ''nonexistent@example.com'') (SmtpReply 250),
       SmtpEvent Exit (SmtpReply 221)])"
  by (simp add: stage_defs net_accept_all_def run_simps)

text \<open>
  Claim C1, as stated, in a world whose exchanger accepts every recipient: in
  \<open>emailv12.py\<close> the catch-all check runs right after the lookup and reports catch-all,
  the status returned is \<open>Valid\<close>, and no RCPT for the real recipient was sent.
\<close>

theorem catch_all_valid_counterexample:
  "fst (v12_check_catch_all net_accept_all ''example.com''
          [DnsEvent ''example.com'' (Inr [mx_of 10 ''mx.example.com''])]) = Inr True \<and>
   fst (v12_validate_email net_accept_all ''user@example.com'' []) =
     Inr (''user@example.com'', ''Valid'') \<and>
   \<not> list_ex (rcpt_replied ''user@example.com'' (\<lambda>c. True))
        (snd (v12_validate_email net_accept_all ''user@example.com'' []))"
  by (simp add: v12_validate_accept_run v12_catch_all_after_lookup_run rcpt_replied_def)

text \<open>
  Claim C1, amended. In \<open>eemail.py\<close>, \<open>validate_email\<close> runs \<open>check_syntax\<close>,
  \<open>check_mail_server\<close>, \<open>check_connection\<close> and \<open>check_catch_all\<close> in this order, each on
  the trace the stage before it left, stops at the first stage that fails and returns
  its status (\<open>Invalid syntax\<close>, \<open>No MX records found\<close>, \<open>Cannot connect to mail
  server\<close>, \<open>Domain has catch-all enabled\<close>), and returns \<open>Email is valid\<close> only when
  the four stages pass. In \<open>emailv12.py\<close> the order is \<open>check_syntax\<close>,
  \<open>check_mail_server\<close>, \<open>check_catch_all\<close>, \<open>check_connection\<close>, and a domain that
  \<open>check_catch_all\<close> reports as catch-all is returned as \<open>Valid\<close> without the SMTP probe
  of the real recipient. The rows are stated for a \<open>check_mail_server\<close> that returns.
\<close>

theorem pipeline_stage_order:
  "(\<not> check_syntax email \<longrightarrow>
      eemail_validate_email net email t = (Inr (False, ''Invalid syntax''), t) \<and>
      v12_validate_email net email t = (Inr (email, ''Invalid syntax''), t)) \<and>
   (check_syntax email \<longrightarrow>
      (\<exists>d. domain_of email = Inr d \<and>
         (let ms = eemail_check_mail_server net d t;
              conn = eemail_check_connection net email (snd ms);
              ca = eemail_check_catch_all net d (snd conn)
          in (fst ms = Inr False \<longrightarrow>
                eemail_validate_email net email t =
                  (Inr (False, ''No MX records found''), snd ms)) \<and>
             (fst ms = Inr True \<and> fst conn = Inr False \<longrightarrow>
                eemail_validate_email net email t =
                  (Inr (False, ''Cannot connect to mail server''), snd conn)) \<and>
             (fst ms = Inr True \<and> fst conn = Inr True \<and> fst ca = Inr True \<longrightarrow>
                eemail_validate_email net email t =
                  (Inr (False, ''Domain has catch-all enabled''), snd ca)) \<and>
             (fst ms = Inr True \<and> fst conn = Inr True \<and> fst ca = Inr False \<longrightarrow>
                eemail_validate_email net email t =
                  (Inr (True, ''Email is valid''), snd ca)) \<and>
             (fst conn = Inr True \<or> fst conn = Inr False) \<and>
             (fst ca = Inr True \<or> fst ca = Inr False)) \<and>
         (let ms = v12_check_mail_server net d t;
              ca = v12_check_catch_all net d (snd ms);
              conn = v12_check_connection net email (snd ca)
          in (fst ms = Inr False \<longrightarrow>
                v12_validate_email net email t =
                  (Inr (email, ''No MX records found''), snd ms)) \<and>
             (fst ms = Inr True \<and> fst ca = Inr True \<longrightarrow>
                v12_validate_email net email t = (Inr (email, ''Valid''), snd ca)) \<and>
             (fst ms = Inr True \<and> fst ca = Inr False \<and> fst conn = Inr False \<longrightarrow>
                v12_validate_email net email t =
                  (Inr (email, ''Cannot connect to mail server''), snd conn)) \<and>
             (fst ms = Inr True \<and> fst ca = Inr False \<and> fst conn = Inr True \<longrightarrow>
                v12_validate_email net email t = (Inr (email, ''Valid''), snd conn)) \<and>
             (fst ms = Inr True \<or> fst ms = Inr False) \<and>
             (fst ca = Inr True \<or> fst ca = Inr False) \<and>
             (fst conn = Inr True \<or> fst conn = Inr False))))"
proof (cases "check_syntax email")
  case False
  then show ?thesis
    by (simp add: eemail_validate_email_def v12_validate_email_def io_return_def)
next
  case True
  from check_syntax_domain [OF True] obtain d where d: "domain_of email = Inr d" ..
  from True d eemail_pipeline [OF True d, of net t] v12_pipeline [OF True d, of net t]
  show ?thesis by blast
qed

theorem pipeline_stage_order_witness:
  "check_syntax ''user@example.com'' \<and>
   \<not> check_syntax ''bad syntax@@x'' \<and>
   fst (eemail_validate_email net_accept_all ''bad syntax@@x'' []) =
     Inr (False, ''Invalid syntax'') \<and>
   fst (eemail_validate_email net_nxdomain ''user@example.com'' []) =
     Inr (False, ''No MX records found'') \<and>
   fst (eemail_validate_email net_refused ''user@example.com'' []) =
     Inr (False, ''Cannot connect to mail server'') \<and>
   fst (eemail_validate_email net_accept_all ''user@example.com'' []) =
     Inr (False, ''Domain has catch-all enabled'') \<and>
   fst (eemail_validate_email net_accept_user ''user@example.com'' []) =
     Inr (True, ''Email is valid'') \<and>
   fst (v12_validate_email net_accept_all ''user@example.com'' []) =
     Inr (''user@example.com'', ''Valid'') \<and>
   fst (v12_validate_email net_reject_rcpt ''user@example.com'' []) =
     Inr (''user@example.com'', ''Cannot connect to mail server'') \<and>
   fst (v12_validate_email net_accept_user ''user@example.com'' []) =
     Inr (''user@example.com'', ''Valid'')"
proof -
  have b: "\<not> check_syntax ''bad syntax@@x''" by code_simp
  have g: "\<not> is_gmail_domain ''example.com''" by (rule example_not_gmail)
  have 0: "fst (eemail_validate_email net_accept_all ''bad syntax@@x'' []) =
     Inr (False, ''Invalid syntax'')"
    using pipeline_stage_order [of "''bad syntax@@x''" net_accept_all "[]"] b by simp
  have 1: "fst (eemail_validate_email net_nxdomain ''user@example.com'' []) =
     Inr (False, ''No MX records found'')"
    using pipeline_stage_order [of "''user@example.com''" net_nxdomain "[]"] user_syntax
    by (simp add: user_domain Let_def stage_defs net_nxdomain_def run_simps)
  have 2: "fst (eemail_validate_email net_refused ''user@example.com'' []) =
     Inr (False, ''Cannot connect to mail server'')"
    using pipeline_stage_order [of "''user@example.com''" net_refused "[]"] user_syntax
    by (simp add: user_domain Let_def stage_defs net_refused_def run_simps)
  have 3: "fst (eemail_validate_email net_accept_all ''user@example.com'' []) =
     Inr (False, ''Domain has catch-all enabled'')"
    using pipeline_stage_order [of "''user@example.com''" net_accept_all "[]"] user_syntax
    by (simp add: user_domain Let_def stage_defs net_accept_all_def run_simps g)
  have 4: "fst (eemail_validate_email net_accept_user ''user@example.com'' []) =
     Inr (True, ''Email is valid'')"
    using pipeline_stage_order [of "''user@example.com''" net_accept_user "[]"] user_syntax
    by (simp add: user_domain Let_def stage_defs net_accept_user_def run_simps g)
  have 5: "fst (v12_validate_email net_accept_all ''user@example.com'' []) =
     Inr (''user@example.com'', ''Valid'')"
    using pipeline_stage_order [of "''user@example.com''" net_accept_all "[]"] user_syntax
    by (simp add: user_domain Let_def stage_defs net_accept_all_def run_simps g)
  have 6: "fst (v12_validate_email net_reject_rcpt ''user@example.com'' []) =
     Inr (''user@example.com'', ''Cannot connect to mail server'')"
    using pipeline_stage_order [of "''user@example.com''" net_reject_rcpt "[]"] user_syntax
    by (simp add: user_domain Let_def stage_defs net_reject_rcpt_def run_simps g)
  have 7: "fst (v12_validate_email net_accept_user ''user@example.com'' []) =
     Inr (''user@example.com'', ''Valid'')"
    using pipeline_stage_order [of "''user@example.com''" net_accept_user "[]"] user_syntax
    by (simp add: user_domain Let_def stage_defs net_accept_user_def run_simps g)
  from user_syntax b 0 1 2 3 4 5 6 7 show ?thesis by simp
qed

section \<open>The batch runner\<close>

subsection \<open>\<open>validate_email\<close> returns the address it was given\<close>






subsection \<open>Collecting the results of the futures\<close>






end
